theory Spec2Isabelle
  imports Complex_Main "HOL-Library.Product_Lexorder" "HOL-Library.Multiset" "HOL-Library.AList"
    "HOL-Library.Char_ord" "HOL-Library.List_Lexorder" "HOL-Library.Sublist"
begin

section \<open>Values of a data frame\<close>

text \<open>
  The program is a thin layer over pandas: \<^verbatim>\<open>load_data\<close> reads a CSV file with
  \<^verbatim>\<open>pd.read_csv(path, sep=";", decimal=",")\<close>, converts the column \<^verbatim>\<open>Date\<close> with
  \<^verbatim>\<open>pd.to_datetime(..., format="%m/%d/%Y")\<close>, sorts by it and adds the column
  \<^verbatim>\<open>Month\<close>. The embedding therefore has to say what these calls do; it follows the
  behaviour of pandas' C parser and of its \<^verbatim>\<open>strptime\<close> for the options the program
  passes (all other options at their defaults).

  Numbers are exact rationals: the binary rounding of a double, the range of \<^verbatim>\<open>int64\<close>
  and the literals for infinity are not part of the model.
\<close>

type_synonym date = "nat \<times> nat \<times> nat"
  \<comment> \<open>year, month, day; the order of the type is the lexicographic one, which is the
      order of the timestamps\<close>

datatype cell =
    NaN
  | Num rat
  | Bool bool
  | Str string
  | Timestamp date
  | NaT

datatype py_error =
    FileNotFoundError
  | PermissionError
  | EmptyDataError
  | ParserError
  | KeyError string
  | ValueError
  | TypeError
  | AttributeError

definition isna :: "cell \<Rightarrow> bool" where
  "isna c = (c = NaN \<or> c = NaT)"

section \<open>Numeric fields: \<^verbatim>\<open>decimal=","\<close>\<close>

text \<open>
  The C parser converts a field with \<^verbatim>\<open>xstrtod(word, &end, decimal, sci='E', tsep, skip_trailing=1)\<close>
  and accepts it when the whole field was consumed. The program passes \<^verbatim>\<open>decimal=","\<close> and
  no \<^verbatim>\<open>thousands\<close>, so \<^verbatim>\<open>tsep\<close> is the NUL character and no digit grouping is
  skipped.
\<close>

definition isspace_ascii :: "char \<Rightarrow> bool" where
  "isspace_ascii c = (c \<in> set [CHR '' '', CHR 0x09, CHR 0x0A, CHR 0x0B, CHR 0x0C, CHR 0x0D])"

definition isdigit_ascii :: "char \<Rightarrow> bool" where
  "isdigit_ascii c = (c \<in> set ''0123456789'')"

definition digit_val :: "char \<Rightarrow> nat" where
  "digit_val c = of_char c - 48"

definition digits_val :: "string \<Rightarrow> nat" where
  "digits_val ds = foldl (\<lambda>n c. n * 10 + digit_val c) 0 ds"

definition opt_sign :: "string \<Rightarrow> bool \<times> string" where
  "opt_sign p =
     (case p of
        [] \<Rightarrow> (False, p)
      | c # r \<Rightarrow> if c = CHR ''-'' then (True, r) else if c = CHR ''+'' then (False, r) else (False, p))"

definition scale10 :: "rat \<Rightarrow> int \<Rightarrow> rat" where
  "scale10 x e = (if 0 \<le> e then x * 10 ^ nat e else x / 10 ^ nat (- e))"

definition exponent_part :: "string \<Rightarrow> int \<times> string" where
  "exponent_part p =
     (case p of
        [] \<Rightarrow> (0, p)
      | c # r \<Rightarrow>
          if c = CHR ''E'' \<or> c = CHR ''e'' then
            (let (negative, r') = opt_sign r;
                 es = takeWhile isdigit_ascii r'
             in if es = [] then (0, p)
                else ((if negative then - int (digits_val es) else int (digits_val es)),
                      dropWhile isdigit_ascii r'))
          else (0, p))"

definition xstrtod :: "char \<Rightarrow> string \<Rightarrow> (rat \<times> string) option" where
  "xstrtod decimal str =
     (let (negative, p) = opt_sign (dropWhile isspace_ascii str);
          ds = takeWhile isdigit_ascii p;
          p1 = dropWhile isdigit_ascii p;
          (fs, p2) =
            (case p1 of
               [] \<Rightarrow> ([], p1)
             | c # r \<Rightarrow>
                 if c = decimal then (takeWhile isdigit_ascii r, dropWhile isdigit_ascii r)
                 else ([], p1))
      in if ds = [] \<and> fs = [] then None
         else
           (let number = rat_of_nat (digits_val (ds @ fs));
                (e, p3) = exponent_part p2
            in Some (scale10 (if negative then - number else number) (e - int (length fs)),
                     dropWhile isspace_ascii p3)))"

definition to_double :: "char \<Rightarrow> string \<Rightarrow> rat option" where
  "to_double decimal word =
     (case xstrtod decimal word of
        None \<Rightarrow> None
      | Some (x, rest) \<Rightarrow> if rest = [] then Some x else None)"

section \<open>The tokenizer: \<^verbatim>\<open>sep=";"\<close>\<close>

text \<open>
  \<^verbatim>\<open>read_csv\<close> splits the file with the state machine of pandas' C tokenizer. With the
  program's options the delimiter is \<^verbatim>\<open>;\<close>, the quote character is \<^verbatim>\<open>"\<close> with
  double-quote escaping, there is no escape or comment character, blank lines are skipped
  and a line ends at \<^verbatim>\<open>\n\<close>, \<^verbatim>\<open>\r\<close> or \<^verbatim>\<open>\r\n\<close>.
\<close>

datatype tstate =
    START_RECORD
  | START_FIELD
  | IN_FIELD
  | IN_QUOTED_FIELD
  | QUOTE_IN_QUOTED_FIELD
  | EAT_CRNL
  | EAT_CRNL_NOP
  | WHITESPACE_LINE

record parser =
  lines :: "string list list"
  line_fields :: "string list"
  field :: string

definition delimiter :: char where
  "delimiter = CHR '';''"

definition quotechar :: char where
  "quotechar = CHR 0x22"

definition IS_TERMINATOR :: "char \<Rightarrow> bool" where
  "IS_TERMINATOR c = (c = CHR 0x0A)"

definition IS_CARRIAGE :: "char \<Rightarrow> bool" where
  "IS_CARRIAGE c = (c = CHR 0x0D)"

definition IS_WHITESPACE :: "char \<Rightarrow> bool" where
  "IS_WHITESPACE c = (c = CHR '' '' \<or> c = CHR 0x09)"

definition PUSH_CHAR :: "char \<Rightarrow> parser \<Rightarrow> parser" where
  "PUSH_CHAR c p = p\<lparr>field := field p @ [c]\<rparr>"

definition end_field :: "parser \<Rightarrow> parser" where
  "end_field p = p\<lparr>line_fields := line_fields p @ [field p], field := []\<rparr>"

text \<open>
  \<^verbatim>\<open>end_line\<close>: a line is compared with the line before it. From the second data line
  on, a line with more fields is an error (\<^verbatim>\<open>on_bad_lines="error"\<close>); a data line with
  fewer fields is filled up with empty fields. The first data line may be longer than the
  header: its leading fields then become the index.
\<close>

definition end_line :: "parser \<Rightarrow> py_error + parser" where
  "end_line p =
     (let fields = line_fields p; ls = lines p
      in if ls = [] then Inr (p\<lparr>lines := [fields], line_fields := [], field := []\<rparr>)
         else
           (let ex_fields = length (last ls)
            in if 1 < length ls \<and> ex_fields < length fields then Inl ParserError
               else Inr (p\<lparr>lines := ls @ [fields @ replicate (ex_fields - length fields) []],
                             line_fields := [], field := []\<rparr>)))"

definition next_state :: "tstate \<Rightarrow> py_error + parser \<Rightarrow> py_error + tstate \<times> parser" where
  "next_state s r = (case r of Inl e \<Rightarrow> Inl e | Inr p \<Rightarrow> Inr (s, p))"

definition in_field :: "parser \<Rightarrow> char \<Rightarrow> py_error + tstate \<times> parser" where
  "in_field p c =
     (if IS_TERMINATOR c then next_state START_RECORD (end_line (end_field p))
      else if IS_CARRIAGE c then Inr (EAT_CRNL, end_field p)
      else if c = delimiter then Inr (START_FIELD, end_field p)
      else Inr (IN_FIELD, PUSH_CHAR c p))"

definition start_field :: "parser \<Rightarrow> char \<Rightarrow> py_error + tstate \<times> parser" where
  "start_field p c =
     (if IS_TERMINATOR c then next_state START_RECORD (end_line (end_field p))
      else if IS_CARRIAGE c then Inr (EAT_CRNL, end_field p)
      else if c = quotechar then Inr (IN_QUOTED_FIELD, p)
      else if c = delimiter then Inr (START_FIELD, end_field p)
      else Inr (IN_FIELD, PUSH_CHAR c p))"

definition start_record :: "parser \<Rightarrow> char \<Rightarrow> py_error + tstate \<times> parser" where
  "start_record p c =
     (if IS_TERMINATOR c then Inr (START_RECORD, p)
      else if IS_CARRIAGE c then Inr (EAT_CRNL_NOP, p)
      else if IS_WHITESPACE c \<and> c \<noteq> delimiter then Inr (WHITESPACE_LINE, PUSH_CHAR c p)
      else start_field p c)"

text \<open>
  In the state \<^verbatim>\<open>WHITESPACE_LINE\<close> the C code drops a line of blanks and, at any other
  character, goes back to the start of the line and reads it as a field; here the blanks
  read so far are kept in \<open>field\<close> instead of being read twice.
\<close>

fun tokenize_step :: "tstate \<Rightarrow> parser \<Rightarrow> char \<Rightarrow> py_error + tstate \<times> parser" where
  "tokenize_step START_RECORD p c = start_record p c"
| "tokenize_step START_FIELD p c = start_field p c"
| "tokenize_step IN_FIELD p c = in_field p c"
| "tokenize_step IN_QUOTED_FIELD p c =
     (if c = quotechar then Inr (QUOTE_IN_QUOTED_FIELD, p)
      else Inr (IN_QUOTED_FIELD, PUSH_CHAR c p))"
| "tokenize_step QUOTE_IN_QUOTED_FIELD p c =
     (if IS_TERMINATOR c then next_state START_RECORD (end_line (end_field p))
      else if IS_CARRIAGE c then Inr (EAT_CRNL, end_field p)
      else if c = quotechar then Inr (IN_QUOTED_FIELD, PUSH_CHAR c p)
      else if c = delimiter then Inr (START_FIELD, end_field p)
      else Inr (IN_FIELD, PUSH_CHAR c p))"
| "tokenize_step EAT_CRNL p c =
     (if IS_TERMINATOR c then next_state START_RECORD (end_line p)
      else if c = delimiter then
        (case end_line p of Inl e \<Rightarrow> Inl e | Inr p' \<Rightarrow> Inr (START_FIELD, end_field p'))
      else (case end_line p of Inl e \<Rightarrow> Inl e | Inr p' \<Rightarrow> start_record p' c))"
| "tokenize_step EAT_CRNL_NOP p c =
     (if IS_CARRIAGE c \<or> IS_TERMINATOR c then Inr (START_RECORD, p) else start_record p c)"
| "tokenize_step WHITESPACE_LINE p c =
     (if IS_TERMINATOR c then Inr (START_RECORD, p\<lparr>field := []\<rparr>)
      else if IS_CARRIAGE c then Inr (EAT_CRNL_NOP, p\<lparr>field := []\<rparr>)
      else if IS_WHITESPACE c \<and> c \<noteq> delimiter then Inr (WHITESPACE_LINE, PUSH_CHAR c p)
      else in_field p c)"

fun parser_handle_eof :: "tstate \<Rightarrow> parser \<Rightarrow> py_error + parser" where
  "parser_handle_eof START_RECORD p = Inr p"
| "parser_handle_eof WHITESPACE_LINE p = Inr p"
| "parser_handle_eof EAT_CRNL_NOP p = Inr p"
| "parser_handle_eof IN_QUOTED_FIELD p = Inl ParserError"
| "parser_handle_eof IN_FIELD p = end_line (end_field p)"
| "parser_handle_eof START_FIELD p = end_line (end_field p)"
| "parser_handle_eof QUOTE_IN_QUOTED_FIELD p = end_line (end_field p)"
| "parser_handle_eof EAT_CRNL p = end_line p"

fun tokenize_bytes :: "tstate \<Rightarrow> parser \<Rightarrow> string \<Rightarrow> py_error + parser" where
  "tokenize_bytes s p [] = parser_handle_eof s p"
| "tokenize_bytes s p (c # cs) =
     (case tokenize_step s p c of
        Inl e \<Rightarrow> Inl e
      | Inr (s', p') \<Rightarrow> tokenize_bytes s' p' cs)"

definition tokenize_all :: "string \<Rightarrow> py_error + string list list" where
  "tokenize_all data =
     (case tokenize_bytes START_RECORD \<lparr>lines = [], line_fields = [], field = []\<rparr> data of
        Inl e \<Rightarrow> Inl e
      | Inr p \<Rightarrow> Inr (lines p))"

section \<open>Type inference of a column\<close>

text \<open>
  A field that is one of the default NA strings is a missing value. A column is numeric
  when every other field of it converts with \<open>to_double\<close> (\<^verbatim>\<open>int64\<close>, or \<^verbatim>\<open>float64\<close> when
  a field is missing or has a fraction), boolean when every other field is a boolean
  literal, and a column of strings (\<^verbatim>\<open>object\<close>) otherwise: a single field that is not a
  number turns the whole column into text, and nothing is raised.
\<close>

definition STR_NA_VALUES :: "string list" where
  "STR_NA_VALUES =
     [[], ''#N/A'', ''#N/A N/A'', ''#NA'', ''-1.#IND'', ''-1.#QNAN'', ''-NaN'', ''-nan'',
      ''1.#IND'', ''1.#QNAN'', ''<NA>'', ''N/A'', ''NA'', ''NULL'', ''NaN'', ''None'', ''n/a'',
      ''nan'', ''null'']"

definition is_na_value :: "string \<Rightarrow> bool" where
  "is_na_value w = (w \<in> set STR_NA_VALUES)"

definition try_double :: "string list \<Rightarrow> cell list option" where
  "try_double ws =
     those (map (\<lambda>w. if is_na_value w then Some NaN
                      else map_option Num (to_double (CHR '','') w)) ws)"

definition bool_word :: "string \<Rightarrow> bool option" where
  "bool_word w =
     (if w \<in> set [''True'', ''TRUE'', ''true''] then Some True
      else if w \<in> set [''False'', ''FALSE'', ''false''] then Some False
      else None)"

definition try_bool :: "string list \<Rightarrow> cell list option" where
  "try_bool ws =
     those (map (\<lambda>w. if is_na_value w then Some NaN else map_option Bool (bool_word w)) ws)"

definition convert_tokens :: "string list \<Rightarrow> cell list" where
  "convert_tokens ws =
     (case try_double ws of
        Some cs \<Rightarrow> cs
      | None \<Rightarrow>
          (case try_bool ws of
             Some cs \<Rightarrow> cs
           | None \<Rightarrow> map (\<lambda>w. if is_na_value w then NaN else Str w) ws))"

section \<open>Data frames\<close>

text \<open>
  A frame is the list of its column names and the list of its rows. A row carries the
  position \<open>pos\<close> the record had among the data lines of the file (the label of the
  default \<^verbatim>\<open>RangeIndex\<close>), which no operation of the program changes, and its cells by
  column name.
\<close>

record row =
  pos :: nat
  cells :: "(string \<times> cell) list"

record frame =
  columns :: "string list"
  rows :: "row list"

definition get_cell :: "row \<Rightarrow> string \<Rightarrow> cell" where
  "get_cell r name = (case map_of (cells r) name of None \<Rightarrow> NaN | Some c \<Rightarrow> c)"

definition getitem :: "frame \<Rightarrow> string \<Rightarrow> py_error + cell list" where
  "getitem df name =
     (if name \<in> set (columns df) then Inr (map (\<lambda>r. get_cell r name) (rows df))
      else Inl (KeyError name))"

definition setitem :: "frame \<Rightarrow> string \<Rightarrow> cell list \<Rightarrow> frame" where
  "setitem df name vals =
     \<lparr>columns = (if name \<in> set (columns df) then columns df else columns df @ [name]),
      rows = map (\<lambda>(r, v). r\<lparr>cells := AList.update name v (cells r)\<rparr>) (zip (rows df) vals)\<rparr>"

section \<open>\<^verbatim>\<open>read_csv\<close>\<close>

datatype fs_entry = Missing | Unreadable | Content string

type_synonym filesystem = "string \<Rightarrow> fs_entry"

text \<open>
  The first line is the header. All data lines have the width of the first data line
  (\<open>end_line\<close>); when that is wider than the header, the leading fields are the index and
  the header names the remaining ones.
\<close>

definition data_frame :: "string list \<Rightarrow> string list list \<Rightarrow> frame" where
  "data_frame header data =
     (let leading_cols = (case data of [] \<Rightarrow> 0 | r # _ \<Rightarrow> length r - length header);
          cols = map (\<lambda>j. convert_tokens (map (\<lambda>r. r ! (leading_cols + j)) data))
                     [0..<length header]
      in \<lparr>columns = header,
          rows = map (\<lambda>i. \<lparr>pos = i, cells = zip header (map (\<lambda>col. col ! i) cols)\<rparr>)
                     [0..<length data]\<rparr>)"

definition read_csv :: "filesystem \<Rightarrow> string \<Rightarrow> py_error + frame" where
  "read_csv fs path =
     (case fs path of
        Missing \<Rightarrow> Inl FileNotFoundError
      | Unreadable \<Rightarrow> Inl PermissionError
      | Content data \<Rightarrow>
          (case tokenize_all data of
             Inl e \<Rightarrow> Inl e
           | Inr [] \<Rightarrow> Inl EmptyDataError
           | Inr (header # rest) \<Rightarrow> Inr (data_frame header rest)))"

section \<open>\<^verbatim>\<open>to_datetime\<close> with \<^verbatim>\<open>format="%m/%d/%Y"\<close>\<close>

text \<open>
  The format is compiled to the regular expression
  \<^verbatim>\<open>(1[0-2]|0[1-9]|[1-9])/(3[0-1]|[1-2]\d|0[1-9]|[1-9]| [1-9])/(\d\d\d\d)\<close>, which has to match
  the whole string (\<^verbatim>\<open>exact=True\<close>). As no alternative contains a slash, the month is
  the text before the first slash and the day the text before the second. The day has to
  exist in the month, and the date has to lie in the range of a nanosecond timestamp
  (from 1677-09-22 to 2262-04-11 for a time of day of midnight).
\<close>

definition cut :: "string \<Rightarrow> (string \<times> string) option" where
  "cut s =
     (case dropWhile (\<lambda>c. c \<noteq> CHR ''/'') s of
        [] \<Rightarrow> None
      | _ # r \<Rightarrow> Some (takeWhile (\<lambda>c. c \<noteq> CHR ''/'') s, r))"

definition nonzero_digit :: "char \<Rightarrow> bool" where
  "nonzero_digit c = (c \<in> set ''123456789'')"

definition month_re :: "string \<Rightarrow> bool" where
  "month_re m =
     (case m of
        [a] \<Rightarrow> nonzero_digit a
      | [a, b] \<Rightarrow> a = CHR ''1'' \<and> b \<in> set ''012'' \<or> a = CHR ''0'' \<and> nonzero_digit b
      | _ \<Rightarrow> False)"

definition day_re :: "string \<Rightarrow> bool" where
  "day_re d =
     (case d of
        [a] \<Rightarrow> nonzero_digit a
      | [a, b] \<Rightarrow>
          a = CHR ''3'' \<and> b \<in> set ''01'' \<or> a \<in> set ''12'' \<and> isdigit_ascii b
          \<or> a = CHR ''0'' \<and> nonzero_digit b \<or> a = CHR '' '' \<and> nonzero_digit b
      | _ \<Rightarrow> False)"

definition year_re :: "string \<Rightarrow> bool" where
  "year_re Y = (length Y = 4 \<and> list_all isdigit_ascii Y)"

definition is_leap :: "nat \<Rightarrow> bool" where
  "is_leap y = (y mod 4 = 0 \<and> (y mod 100 \<noteq> 0 \<or> y mod 400 = 0))"

definition days_in_month :: "nat \<Rightarrow> nat \<Rightarrow> nat" where
  "days_in_month y m =
     (if m = 2 then (if is_leap y then 29 else 28)
      else if m \<in> set [4, 6, 9, 11] then 30 else 31)"

definition Timestamp_min :: date where
  "Timestamp_min = (1677, 9, 22)"

definition Timestamp_max :: date where
  "Timestamp_max = (2262, 4, 11)"

definition strptime :: "string \<Rightarrow> date option" where
  "strptime val =
     (case cut val of
        None \<Rightarrow> None
      | Some (m, r) \<Rightarrow>
          (case cut r of
             None \<Rightarrow> None
           | Some (d, Y) \<Rightarrow>
               if month_re m \<and> day_re d \<and> year_re Y then
                 (let year = digits_val Y; month = digits_val m;
                      day = digits_val (dropWhile (\<lambda>c. c = CHR '' '') d)
                  in if day \<le> days_in_month year month \<and> Timestamp_min \<le> (year, month, day)
                        \<and> (year, month, day) \<le> Timestamp_max
                     then Some (year, month, day) else None)
               else None))"

definition nat_strings :: "string list" where
  "nat_strings = [''NaT'', ''nat'', ''NAT'', ''nan'', ''NaN'', ''NAN'']"

text \<open>
  One value of the column: a missing value and a string that spells one give \<^verbatim>\<open>NaT\<close>;
  any other value is taken as a string and has to match the format (a number, written
  out, has no slash and never matches).
\<close>

fun array_strptime_val :: "cell \<Rightarrow> py_error + cell" where
  "array_strptime_val NaN = Inr NaT"
| "array_strptime_val NaT = Inr NaT"
| "array_strptime_val (Timestamp d) = Inr (Timestamp d)"
| "array_strptime_val (Num x) = Inl ValueError"
| "array_strptime_val (Bool b) = Inl ValueError"
| "array_strptime_val (Str s) =
     (if s = [] \<or> s \<in> set nat_strings then Inr NaT
      else (case strptime s of None \<Rightarrow> Inl ValueError | Some d \<Rightarrow> Inr (Timestamp d)))"

text \<open>A conversion of a whole column stops at the first value that raises.\<close>

fun map_err :: "('a \<Rightarrow> 'e + 'b) \<Rightarrow> 'a list \<Rightarrow> 'e + 'b list" where
  "map_err f [] = Inr []"
| "map_err f (x # xs) =
     (case f x of
        Inl e \<Rightarrow> Inl e
      | Inr y \<Rightarrow> (case map_err f xs of Inl e \<Rightarrow> Inl e | Inr ys \<Rightarrow> Inr (y # ys)))"

definition to_datetime :: "cell list \<Rightarrow> py_error + cell list" where
  "to_datetime col = map_err array_strptime_val col"

section \<open>\<^verbatim>\<open>sort_values\<close>\<close>

text \<open>
  \<^verbatim>\<open>df.sort_values("Date")\<close> passes no \<^verbatim>\<open>kind\<close>, so the keys are sorted with the default
  \<^verbatim>\<open>kind="quicksort"\<close> of \<^verbatim>\<open>numpy.argsort\<close>, which pandas and numpy document as not
  stable (only \<^verbatim>\<open>"mergesort"\<close> and \<^verbatim>\<open>"stable"\<close> are). Which permutation it returns for
  equal keys belongs to numpy's implementation (an introsort that falls back to insertion
  sort on short ranges, or a vectorised sort), so the sorting routine is a parameter
  \<open>kind\<close> of the model, and \<open>argsort_contract\<close> is what is known of it: it returns a
  permutation of the positions that puts the keys in ascending order.

  \<^verbatim>\<open>nargsort\<close> sorts the keys that are not missing and puts the rows with a missing key
  last, in their original order (\<^verbatim>\<open>na_position="last"\<close>).
\<close>

type_synonym argsort = "date list \<Rightarrow> nat list"

definition argsort_contract :: "argsort \<Rightarrow> bool" where
  "argsort_contract kind \<longleftrightarrow>
     (\<forall>ks. mset (kind ks) = mset [0..<length ks] \<and> sorted (map (\<lambda>i. ks ! i) (kind ks)))"

definition dt_value :: "cell \<Rightarrow> date option" where
  "dt_value c = (case c of Timestamp d \<Rightarrow> Some d | _ \<Rightarrow> None)"

primrec somes :: "'a option list \<Rightarrow> 'a list" where
  "somes [] = []"
| "somes (x # xs) = (case x of None \<Rightarrow> somes xs | Some y \<Rightarrow> y # somes xs)"

definition nargsort :: "argsort \<Rightarrow> date option list \<Rightarrow> nat list" where
  "nargsort kind items =
     (let idx = [0..<length items];
          non_nan_idx = filter (\<lambda>i. items ! i \<noteq> None) idx;
          nan_idx = filter (\<lambda>i. items ! i = None) idx;
          non_nans = somes items
      in map (\<lambda>j. non_nan_idx ! j) (kind non_nans) @ nan_idx)"

definition sort_values :: "argsort \<Rightarrow> frame \<Rightarrow> string \<Rightarrow> py_error + frame" where
  "sort_values kind df by =
     (case getitem df by of
        Inl e \<Rightarrow> Inl e
      | Inr k \<Rightarrow> Inr (df\<lparr>rows := map (\<lambda>i. rows df ! i) (nargsort kind (map dt_value k))\<rparr>))"

section \<open>The month key\<close>

text \<open>
  \<^verbatim>\<open>df["Date"].dt.to_period("M").astype(str)\<close>: the period of a timestamp is its year and
  month, printed as \<^verbatim>\<open>%Y-%m\<close>; the period of \<^verbatim>\<open>NaT\<close> is \<^verbatim>\<open>NaT\<close> and prints as such. The
  accessor \<^verbatim>\<open>.dt\<close> exists on a column of timestamps only.
\<close>

definition digit_char :: "nat \<Rightarrow> char" where
  "digit_char n = char_of (48 + n mod 10)"

definition period_str :: "nat \<times> nat \<Rightarrow> string" where
  "period_str p =
     (case p of (y, m) \<Rightarrow>
        [digit_char (y div 1000), digit_char (y div 100), digit_char (y div 10), digit_char y]
        @ ''-'' @ [digit_char (m div 10), digit_char m])"

fun to_period_M_str :: "cell \<Rightarrow> py_error + cell" where
  "to_period_M_str (Timestamp d) = (case d of (y, m, _) \<Rightarrow> Inr (Str (period_str (y, m))))"
| "to_period_M_str NaT = Inr (Str ''NaT'')"
| "to_period_M_str _ = Inl AttributeError"

definition dt_to_period_M_astype_str :: "cell list \<Rightarrow> py_error + cell list" where
  "dt_to_period_M_astype_str col = map_err to_period_M_str col"

section \<open>\<^verbatim>\<open>load_data\<close>\<close>

text \<open>The body of \<^verbatim>\<open>load_data\<close> (lines 42 to 48), without its cache.\<close>

definition load_data :: "argsort \<Rightarrow> filesystem \<Rightarrow> string \<Rightarrow> py_error + frame" where
  "load_data kind fs path =
     (case read_csv fs path of
        Inl e \<Rightarrow> Inl e
      | Inr df \<Rightarrow>
          (case getitem df ''Date'' of
             Inl e \<Rightarrow> Inl e
           | Inr col \<Rightarrow>
               (case to_datetime col of
                  Inl e \<Rightarrow> Inl e
                | Inr dates \<Rightarrow>
                    (case sort_values kind (setitem df ''Date'' dates) ''Date'' of
                       Inl e \<Rightarrow> Inl e
                     | Inr df' \<Rightarrow>
                         (case getitem df' ''Date'' of
                            Inl e \<Rightarrow> Inl e
                          | Inr col' \<Rightarrow>
                              (case dt_to_period_M_astype_str col' of
                                 Inl e \<Rightarrow> Inl e
                               | Inr months \<Rightarrow> Inr (setitem df' ''Month'' months)))))))"

section \<open>\<^verbatim>\<open>@lru_cache(maxsize=1)\<close>\<close>

text \<open>
  The decorator keeps one entry: the last argument for which the body returned, and the
  object it returned. A call with that argument returns the object without running the
  body; any other call runs the body and, if it returns, replaces the entry. An
  exception of the body is passed on and nothing is stored. The state of the process is
  the entry, the frames allocated so far (a reference is a position in \<open>heap\<close>), the
  counters of \<^verbatim>\<open>cache_info()\<close> and the number of times the body has run.
\<close>

record process =
  cache :: "(string \<times> nat) option"
  heap :: "frame list"
  hits :: nat
  misses :: nat
  body_runs :: nat

definition cache_miss :: "argsort \<Rightarrow> filesystem \<Rightarrow> process \<Rightarrow> string \<Rightarrow> (py_error + nat) \<times> process" where
  "cache_miss kind fs st path =
     (let st' = st\<lparr>misses := misses st + 1, body_runs := body_runs st + 1\<rparr>
      in case load_data kind fs path of
           Inl e \<Rightarrow> (Inl e, st')
         | Inr df \<Rightarrow>
             (Inr (length (heap st')),
              st'\<lparr>heap := heap st' @ [df], cache := Some (path, length (heap st'))\<rparr>))"

definition load_data_cached :: "argsort \<Rightarrow> filesystem \<Rightarrow> process \<Rightarrow> string \<Rightarrow> (py_error + nat) \<times> process" where
  "load_data_cached kind fs st path =
     (case cache st of
        None \<Rightarrow> cache_miss kind fs st path
      | Some (key, ref) \<Rightarrow>
          if key = path then (Inr ref, st\<lparr>hits := hits st + 1\<rparr>)
          else cache_miss kind fs st path)"

section \<open>The month filter\<close>

text \<open>
  \<^verbatim>\<open>unique()\<close> lists the values of a column in the order of their first appearance. The
  select box returns the option the user chose, or \<^verbatim>\<open>None\<close> when there is no option;
  \<open>choice\<close> is the position chosen in the browser (the first option by default).
  \<^verbatim>\<open>df[df["Month"] == month]\<close> keeps the rows whose mask is true.
\<close>

fun unique :: "'a list \<Rightarrow> 'a list" where
  "unique [] = []"
| "unique (x # xs) = x # unique (removeAll x xs)"

definition eq_scalar :: "cell list \<Rightarrow> cell option \<Rightarrow> bool list" where
  "eq_scalar col v = map (\<lambda>c. case v of None \<Rightarrow> False | Some m \<Rightarrow> \<not> isna c \<and> c = m) col"

definition getitem_mask :: "frame \<Rightarrow> bool list \<Rightarrow> frame" where
  "getitem_mask df bs = df\<lparr>rows := map fst (filter snd (zip (rows df) bs))\<rparr>"

definition month_options :: "frame \<Rightarrow> py_error + cell list" where
  "month_options df = (case getitem df ''Month'' of Inl e \<Rightarrow> Inl e | Inr col \<Rightarrow> Inr (unique col))"

definition month_filter :: "frame \<Rightarrow> cell option \<Rightarrow> py_error + frame" where
  "month_filter df month =
     (case getitem df ''Month'' of
        Inl e \<Rightarrow> Inl e
      | Inr col \<Rightarrow> Inr (getitem_mask df (eq_scalar col month)))"

definition selectbox :: "cell list \<Rightarrow> nat \<Rightarrow> cell option" where
  "selectbox options choice =
     (if options = [] then None
      else if choice < length options then Some (options ! choice)
      else Some (options ! 0))"

definition sidebar_filters :: "frame \<Rightarrow> nat \<Rightarrow> py_error + frame" where
  "sidebar_filters df choice =
     (case month_options df of
        Inl e \<Rightarrow> Inl e
      | Inr options \<Rightarrow> month_filter df (selectbox options choice))"

section \<open>The aggregation views\<close>

text \<open>
  \<^verbatim>\<open>df.groupby(by, as_index=False)[col].sum()\<close> with the defaults \<^verbatim>\<open>sort=True\<close> and
  \<^verbatim>\<open>dropna=True\<close>: the rows with a missing value in a key column belong to no group, a
  group exists for each combination of keys that occurs in the remaining rows, and the
  groups come in the order of their keys. A reduction skips missing values. The sum of a
  column of text is the concatenation of its strings.
\<close>

definition cell_key :: "cell \<Rightarrow> nat \<times> rat \<times> string \<times> date" where
  "cell_key c =
     (case c of
        Num x \<Rightarrow> (0, x, [], (0, 0, 0))
      | Bool b \<Rightarrow> (0, of_bool b, [], (0, 0, 0))
      | Str s \<Rightarrow> (1, 0, s, (0, 0, 0))
      | Timestamp d \<Rightarrow> (2, 0, [], d)
      | _ \<Rightarrow> (3, 0, [], (0, 0, 0)))"

definition groupby :: "frame \<Rightarrow> string list \<Rightarrow> py_error + (cell list \<times> row list) list" where
  "groupby df by =
     (case filter (\<lambda>name. name \<notin> set (columns df)) by of
        name # _ \<Rightarrow> Inl (KeyError name)
      | [] \<Rightarrow>
          (let key = (\<lambda>r. map (get_cell r) by);
               rs = filter (\<lambda>r. \<not> list_ex isna (key r)) (rows df);
               ks = sort_key (map cell_key) (remdups (map key rs))
           in Inr (map (\<lambda>k. (k, filter (\<lambda>r. key r = k) rs)) ks)))"

definition num_val :: "cell \<Rightarrow> rat option" where
  "num_val c = (case c of Num x \<Rightarrow> Some x | Bool b \<Rightarrow> Some (of_bool b) | _ \<Rightarrow> None)"

definition str_val :: "cell \<Rightarrow> string option" where
  "str_val c = (case c of Str s \<Rightarrow> Some s | _ \<Rightarrow> None)"

definition agg_sum :: "cell list \<Rightarrow> py_error + cell" where
  "agg_sum cs =
     (let vs = filter (\<lambda>c. \<not> isna c) cs
      in case those (map num_val vs) of
           Some xs \<Rightarrow> Inr (Num (sum_list xs))
         | None \<Rightarrow>
             (case those (map str_val vs) of
                Some ss \<Rightarrow> Inr (Str (concat ss))
              | None \<Rightarrow> Inl TypeError))"

definition agg_mean :: "cell list \<Rightarrow> py_error + cell" where
  "agg_mean cs =
     (let vs = filter (\<lambda>c. \<not> isna c) cs
      in case those (map num_val vs) of
           Some xs \<Rightarrow> Inr (if xs = [] then NaN else Num (sum_list xs / rat_of_nat (length xs)))
         | None \<Rightarrow> Inl TypeError)"

type_synonym table = "cell list list"

definition groupby_agg ::
  "frame \<Rightarrow> string list \<Rightarrow> string \<Rightarrow> (cell list \<Rightarrow> py_error + cell) \<Rightarrow> py_error + table" where
  "groupby_agg df by col agg =
     (case groupby df by of
        Inl e \<Rightarrow> Inl e
      | Inr groups \<Rightarrow>
          if col \<notin> set (columns df) then Inl (KeyError col)
          else map_err (\<lambda>(k, rs). case agg (map (\<lambda>r. get_cell r col) rs) of
                                    Inl e \<Rightarrow> Inl e
                                  | Inr v \<Rightarrow> Inr (k @ [v])) groups)"

text \<open>
  \<^verbatim>\<open>px.bar\<close> and \<^verbatim>\<open>px.pie\<close> read the columns they are given by name from the frame, one
  mark per row, and raise when the frame has no such column. Each plotting function of
  the program returns here the table its chart is drawn from.
\<close>

definition px_data :: "frame \<Rightarrow> string list \<Rightarrow> py_error + table" where
  "px_data df names =
     (case filter (\<lambda>name. name \<notin> set (columns df)) names of
        name # _ \<Rightarrow> Inl ValueError
      | [] \<Rightarrow> Inr (map (\<lambda>r. map (get_cell r) names) (rows df)))"

definition plot_revenue_by_day :: "frame \<Rightarrow> py_error + table" where
  "plot_revenue_by_day df = px_data df [''Date'', ''Total'', ''City'']"

definition plot_revenue_by_product :: "frame \<Rightarrow> py_error + table" where
  "plot_revenue_by_product df = groupby_agg df [''Product line'', ''City''] ''Total'' agg_sum"

definition plot_revenue_by_city :: "frame \<Rightarrow> py_error + table" where
  "plot_revenue_by_city df = groupby_agg df [''City''] ''Total'' agg_sum"

definition plot_revenue_by_payment :: "frame \<Rightarrow> py_error + table" where
  "plot_revenue_by_payment df = px_data df [''Total'', ''Payment'']"

definition plot_rating_by_city :: "frame \<Rightarrow> py_error + table" where
  "plot_rating_by_city df = groupby_agg df [''City''] ''Rating'' agg_mean"

section \<open>\<^verbatim>\<open>main\<close>\<close>

text \<open>
  The calls into streamlit are recorded as a trace of events. An exception ends the run:
  the trace holds what was drawn before it was raised.
\<close>

datatype chart =
    Revenue_by_day
  | Revenue_by_product
  | Revenue_by_city
  | Revenue_by_payment
  | Rating_by_city

datatype event =
    St_title
  | St_sidebar_header
  | St_selectbox "cell list"
  | St_columns nat
  | St_plotly_chart chart table
  | St_caption

definition DATA_PATH :: string where
  "DATA_PATH = ''data/supermarket_sales.csv''"

definition draw ::
  "chart \<Rightarrow> (frame \<Rightarrow> py_error + table) \<Rightarrow> frame \<Rightarrow> py_error option \<times> event list
     \<Rightarrow> py_error option \<times> event list" where
  "draw ch plot df run =
     (case run of
        (Some e, evs) \<Rightarrow> (Some e, evs)
      | (None, evs) \<Rightarrow>
          (case plot df of
             Inl e \<Rightarrow> (Some e, evs)
           | Inr t \<Rightarrow> (None, evs @ [St_plotly_chart ch t])))"

definition main ::
  "argsort \<Rightarrow> filesystem \<Rightarrow> process \<Rightarrow> nat \<Rightarrow> py_error option \<times> event list \<times> process" where
  "main kind fs st choice =
     (case load_data_cached kind fs st DATA_PATH of
        (Inl e, st') \<Rightarrow> (Some e, [St_title], st')
      | (Inr ref, st') \<Rightarrow>
          (let df = heap st' ! ref
           in case month_options df of
                Inl e \<Rightarrow> (Some e, [St_title, St_sidebar_header], st')
              | Inr options \<Rightarrow>
                  (case month_filter df (selectbox options choice) of
                     Inl e \<Rightarrow> (Some e, [St_title, St_sidebar_header, St_selectbox options], st')
                   | Inr df_filtered \<Rightarrow>
                       (case draw Rating_by_city plot_rating_by_city df_filtered
                              (draw Revenue_by_payment plot_revenue_by_payment df_filtered
                                (draw Revenue_by_city plot_revenue_by_city df_filtered
                                  (draw Revenue_by_product plot_revenue_by_product df_filtered
                                    (draw Revenue_by_day plot_revenue_by_day df_filtered
                                      (None, [St_title, St_sidebar_header, St_selectbox options,
                                              St_columns 2, St_columns 3]))))) of
                          (Some e, evs) \<Rightarrow> (Some e, evs, st')
                        | (None, evs) \<Rightarrow> (None, evs @ [St_caption], st')))))"

section \<open>Concrete instances\<close>

text \<open>
  On a range of at most sixteen elements numpy's quicksort is an insertion sort, which
  leaves equal keys in their order; \<open>insertion_argsort\<close> is that sort, for any length.
  \<open>new_process\<close> is the state of a process that has not called \<^verbatim>\<open>load_data\<close> yet.
\<close>

definition insertion_argsort :: argsort where
  "insertion_argsort ks = sort_key (\<lambda>i. ks ! i) [0..<length ks]"

definition new_process :: process where
  "new_process = \<lparr>cache = None, heap = [], hits = 0, misses = 0, body_runs = 0\<rparr>"

definition header_only_file :: filesystem where
  "header_only_file path = Content (''Date'' @ [CHR 0x0A])"

section \<open>Writing a table as a file\<close>

text \<open>
  \<open>to_csv\<close> writes a table of fields the way the program's input is laid out: the fields
  of a line joined by semicolons, each line ended by a newline. A field is plain when it
  needs no quoting.
\<close>

definition csv_line :: "string list \<Rightarrow> string" where
  "csv_line r =
     (case r of
        [] \<Rightarrow> []
      | f # fs \<Rightarrow> f @ concat (map (\<lambda>g. CHR '';'' # g) fs)) @ [CHR 0x0A]"

definition to_csv :: "string list list \<Rightarrow> string" where
  "to_csv table = concat (map csv_line table)"

definition plain_char :: "char \<Rightarrow> bool" where
  "plain_char c = (c \<noteq> delimiter \<and> c \<noteq> quotechar \<and> \<not> IS_TERMINATOR c \<and> \<not> IS_CARRIAGE c)"

definition plain_row :: "string list \<Rightarrow> bool" where
  "plain_row r =
     (r \<noteq> [] \<and> list_all (list_all plain_char) r
      \<and> \<not> (length r = 1 \<and> list_all IS_WHITESPACE (hd r)))"

text \<open>
  The scenario of the specification, with the February record before the second January
  one: three records in two months.
\<close>

definition scenario_table :: "string list list" where
  "scenario_table =
     [[''Date'', ''City'', ''Total''],
      [''01/05/2019'', ''CityA'', ''100,50''],
      [''02/01/2019'', ''CityB'', ''75,00''],
      [''01/12/2019'', ''CityA'', ''50,25'']]"

definition scenario_fs :: filesystem where
  "scenario_fs path = Content (to_csv scenario_table)"

definition scenario_frame :: frame where
  "scenario_frame =
     \<lparr>columns = [''Date'', ''City'', ''Total'', ''Month''],
      rows =
        [\<lparr>pos = 0, cells = [(''Date'', Timestamp (2019, 1, 5)), (''City'', Str ''CityA''),
                              (''Total'', Num (201 / 2)), (''Month'', Str ''2019-01'')]\<rparr>,
         \<lparr>pos = 2, cells = [(''Date'', Timestamp (2019, 1, 12)), (''City'', Str ''CityA''),
                              (''Total'', Num (201 / 4)), (''Month'', Str ''2019-01'')]\<rparr>,
         \<lparr>pos = 1, cells = [(''Date'', Timestamp (2019, 2, 1)), (''City'', Str ''CityB''),
                              (''Total'', Num 75), (''Month'', Str ''2019-02'')]\<rparr>]\<rparr>"

section \<open>The order of a loaded table\<close>

text \<open>
  A routine such as \<^verbatim>\<open>kind="stable"\<close> also leaves equal keys in the order of their
  positions: \<open>argsort_stable\<close>. The program does not ask for one.

  \<open>na_last\<close> is the key by which \<^verbatim>\<open>sort_values("Date")\<close> orders the rows: the date, with
  the rows that have no date after all others. A list of rows is \<open>sorted_by_date\<close> when
  these keys ascend, and \<open>stable_by_date\<close> when in addition rows with equal keys come in
  the order of the records in the file.
\<close>

definition argsort_stable :: "argsort \<Rightarrow> bool" where
  "argsort_stable kind \<longleftrightarrow> (\<forall>ks. sorted (map (\<lambda>i. (ks ! i, i)) (kind ks)))"

definition na_last :: "cell \<Rightarrow> nat \<times> date" where
  "na_last c = (case dt_value c of Some d \<Rightarrow> (0, d) | None \<Rightarrow> (1, (0, 0, 0)))"

definition sorted_by_date :: "row list \<Rightarrow> bool" where
  "sorted_by_date rs = sorted (map (\<lambda>r. na_last (get_cell r ''Date'')) rs)"

definition stable_by_date :: "row list \<Rightarrow> bool" where
  "stable_by_date rs = sorted (map (\<lambda>r. (na_last (get_cell r ''Date''), pos r)) rs)"

section \<open>Totals\<close>


text \<open>A table of sales with no record, as the month filter returns it when no row matches.\<close>

definition empty_sales :: frame where
  "empty_sales =
     \<lparr>columns = [''Date'', ''City'', ''Product line'', ''Payment'', ''Total'', ''Rating'', ''Month''],
      rows = []\<rparr>"




text \<open>A file of three sales with all the columns the program reads, and the table loaded from it.\<close>

definition sales_table :: "string list list" where
  "sales_table =
     [[''Date'', ''City'', ''Product line'', ''Payment'', ''Total'', ''Rating''],
      [''01/05/2019'', ''CityA'', ''Food'', ''Cash'', ''100,50'', ''7''],
      [''02/01/2019'', ''CityB'', ''Sports'', ''Ewallet'', ''75,00'', ''9''],
      [''01/12/2019'', ''CityA'', ''Food'', ''Cash'', ''50,25'', ''8'']]"

definition sales_fs :: filesystem where
  "sales_fs path = Content (to_csv sales_table)"

definition sales_frame :: frame where
  "sales_frame =
     \<lparr>columns = [''Date'', ''City'', ''Product line'', ''Payment'', ''Total'', ''Rating'', ''Month''],
      rows =
        [\<lparr>pos = 0, cells = [(''Date'', Timestamp (2019, 1, 5)), (''City'', Str ''CityA''),
                              (''Product line'', Str ''Food''), (''Payment'', Str ''Cash''),
                              (''Total'', Num (201 / 2)), (''Rating'', Num 7),
                              (''Month'', Str ''2019-01'')]\<rparr>,
         \<lparr>pos = 2, cells = [(''Date'', Timestamp (2019, 1, 12)), (''City'', Str ''CityA''),
                              (''Product line'', Str ''Food''), (''Payment'', Str ''Cash''),
                              (''Total'', Num (201 / 4)), (''Rating'', Num 8),
                              (''Month'', Str ''2019-01'')]\<rparr>,
         \<lparr>pos = 1, cells = [(''Date'', Timestamp (2019, 2, 1)), (''City'', Str ''CityB''),
                              (''Product line'', Str ''Sports''), (''Payment'', Str ''Ewallet''),
                              (''Total'', Num 75), (''Rating'', Num 9),
                              (''Month'', Str ''2019-02'')]\<rparr>]\<rparr>"

section \<open>The month key of the specification\<close>

text \<open>
  The specification derives the month key of a record from its date: the date is
  truncated to the first day of its month and formatted as \<^verbatim>\<open>YYYY-MM\<close>, the year on four
  digits and the month on two.
\<close>

definition first_of_month :: "date \<Rightarrow> date" where
  "first_of_month d = (case d of (y, m, _) \<Rightarrow> (y, m, 1))"

primrec zero_padded :: "nat \<Rightarrow> nat \<Rightarrow> string" where
  "zero_padded 0 n = []"
| "zero_padded (Suc w) n = zero_padded w (n div 10) @ [digit_char n]"

definition format_YYYY_MM :: "date \<Rightarrow> string" where
  "format_YYYY_MM d = (case d of (y, m, _) \<Rightarrow> zero_padded 4 y @ ''-'' @ zero_padded 2 m)"

text \<open>
  A file in which the second record has no date, and one in which the first two records
  have the same date. \<open>reversing_argsort\<close> sorts the positions from the last to the first:
  it returns a sorted permutation, with equal keys in the reverse of their order.
\<close>

definition missing_date_table :: "string list list" where
  "missing_date_table =
     [[''Date'', ''City'', ''Total''],
      [''01/05/2019'', ''CityA'', ''100,50''],
      [[], ''CityB'', ''75,00'']]"

definition missing_date_fs :: filesystem where
  "missing_date_fs path = Content (to_csv missing_date_table)"

definition missing_date_frame :: frame where
  "missing_date_frame =
     \<lparr>columns = [''Date'', ''City'', ''Total'', ''Month''],
      rows =
        [\<lparr>pos = 0, cells = [(''Date'', Timestamp (2019, 1, 5)), (''City'', Str ''CityA''),
                              (''Total'', Num (201 / 2)), (''Month'', Str ''2019-01'')]\<rparr>,
         \<lparr>pos = 1, cells = [(''Date'', NaT), (''City'', Str ''CityB''),
                              (''Total'', Num 75), (''Month'', Str ''NaT'')]\<rparr>]\<rparr>"

definition ties_table :: "string list list" where
  "ties_table =
     [[''Date'', ''City''],
      [''01/05/2019'', ''CityB''],
      [''01/05/2019'', ''CityA''],
      [''01/03/2019'', ''CityC'']]"

definition ties_fs :: filesystem where
  "ties_fs path = Content (to_csv ties_table)"

definition ties_row :: "nat \<Rightarrow> nat \<Rightarrow> string \<Rightarrow> row" where
  "ties_row i day city =
     \<lparr>pos = i, cells = [(''Date'', Timestamp (2019, 1, day)), (''City'', Str city),
                         (''Month'', Str ''2019-01'')]\<rparr>"

definition reversing_argsort :: argsort where
  "reversing_argsort ks = sort_key (\<lambda>i. ks ! i) (rev [0..<length ks])"

section \<open>Evaluation of the model on concrete files\<close>

lemmas tokenizer_defs =
  tokenize_all_def start_record_def start_field_def in_field_def end_line_def end_field_def
  PUSH_CHAR_def next_state_def delimiter_def quotechar_def IS_TERMINATOR_def IS_CARRIAGE_def
  IS_WHITESPACE_def

lemmas number_defs =
  to_double_def xstrtod_def opt_sign_def isspace_ascii_def isdigit_ascii_def digits_val_def
  digit_val_def exponent_part_def scale10_def

lemmas column_defs =
  convert_tokens_def try_double_def try_bool_def bool_word_def is_na_value_def STR_NA_VALUES_def

lemmas strptime_defs =
  strptime_def cut_def month_re_def day_re_def year_re_def nonzero_digit_def isdigit_ascii_def
  digits_val_def digit_val_def is_leap_def days_in_month_def Timestamp_min_def Timestamp_max_def
  nat_strings_def to_datetime_def

lemmas frame_defs = get_cell_def getitem_def setitem_def

lemmas sort_defs = sort_values_def nargsort_def dt_value_def insertion_argsort_def

lemmas month_defs = dt_to_period_M_astype_str_def period_str_def digit_char_def

lemma read_header_only:
  "read_csv header_only_file p = Inr \<lparr>columns = [''Date''], rows = []\<rparr>"
  by (simp add: read_csv_def header_only_file_def tokenizer_defs data_frame_def)

lemma load_header_only:
  "load_data insertion_argsort header_only_file p
     = Inr \<lparr>columns = [''Date'', ''Month''], rows = []\<rparr>"
  by (simp add: load_data_def read_header_only frame_defs to_datetime_def sort_defs
      dt_to_period_M_astype_str_def)

section \<open>Reading back a written table\<close>

text \<open>
  The tokenizer splits a file written by \<open>to_csv\<close> at its semicolons and newlines and
  returns the table that was written, when the fields are plain, the lines have the same
  number of fields and no line is a single blank field (such a line is skipped).
\<close>

lemma in_field_run:
  "list_all plain_char w \<Longrightarrow>
   tokenize_bytes IN_FIELD p (w @ rest) = tokenize_bytes IN_FIELD (p\<lparr>field := field p @ w\<rparr>) rest"
  by (induction w arbitrary: p) (simp_all add: in_field_def plain_char_def PUSH_CHAR_def)

lemma whitespace_run:
  "list_all plain_char w \<Longrightarrow>
   tokenize_bytes WHITESPACE_LINE p (w @ rest)
     = tokenize_bytes (if list_all IS_WHITESPACE w then WHITESPACE_LINE else IN_FIELD)
         (p\<lparr>field := field p @ w\<rparr>) rest"
proof (induction w arbitrary: p)
  case Nil
  then show ?case by simp
next
  case (Cons c w)
  then have pc: "plain_char c" and pw: "list_all plain_char w" by simp_all
  show ?case
  proof (cases "IS_WHITESPACE c")
    case True
    then show ?thesis
      using pc Cons.IH [OF pw] by (simp add: plain_char_def PUSH_CHAR_def)
  next
    case False
    then show ?thesis
      using pc in_field_run [OF pw] by (simp add: plain_char_def PUSH_CHAR_def in_field_def)
  qed
qed

lemma field_update_same: "field p = w \<Longrightarrow> p\<lparr>field := w\<rparr> = p"
  by (cases p) simp

lemma start_field_run:
  assumes "list_all plain_char w" and "field p = []"
  shows "tokenize_bytes START_FIELD p (w @ rest)
     = tokenize_bytes (if w = [] then START_FIELD else IN_FIELD) (p\<lparr>field := w\<rparr>) rest"
proof (cases w)
  case Nil
  then show ?thesis using assms by (simp add: field_update_same)
next
  case (Cons c w')
  then show ?thesis
    using assms in_field_run [of w' "PUSH_CHAR c p" rest]
    by (simp add: start_field_def plain_char_def PUSH_CHAR_def)
qed

text \<open>The fields after the first one of a line, up to the end of the line.\<close>

lemma rest_of_line:
  assumes "list_all (list_all plain_char) gs"
    and "s = START_FIELD \<or> s = IN_FIELD \<or> s = WHITESPACE_LINE \<and> gs \<noteq> []"
  shows "tokenize_bytes s p (concat (map (\<lambda>g. CHR '';'' # g) gs) @ CHR 0x0A # rest)
     = (case end_line (p\<lparr>line_fields := line_fields p @ field p # gs, field := []\<rparr>) of
          Inl e \<Rightarrow> Inl e
        | Inr p' \<Rightarrow> tokenize_bytes START_RECORD p' rest)"
  using assms
proof (induction gs arbitrary: s p)
  case Nil
  then show ?case
    by (auto simp: start_field_def in_field_def end_field_def next_state_def delimiter_def
        quotechar_def IS_TERMINATOR_def IS_CARRIAGE_def split: sum.splits)
next
  case (Cons g gs)
  then have pg: "list_all plain_char g" and pgs: "list_all (list_all plain_char) gs"
    by simp_all
  have step: "tokenize_bytes s p (CHR '';'' # X) = tokenize_bytes START_FIELD (end_field p) X" for X
    using Cons.prems(2)
    by (auto simp: start_field_def in_field_def delimiter_def quotechar_def IS_TERMINATOR_def
        IS_CARRIAGE_def IS_WHITESPACE_def)
  have fld: "field (end_field p) = []"
    by (simp add: end_field_def)
  have run: "tokenize_bytes START_FIELD (end_field p) (g @ Y)
      = tokenize_bytes (if g = [] then START_FIELD else IN_FIELD) ((end_field p)\<lparr>field := g\<rparr>) Y" for Y
    using start_field_run [OF pg fld] .
  have ih: "tokenize_bytes (if g = [] then START_FIELD else IN_FIELD) ((end_field p)\<lparr>field := g\<rparr>)
        (concat (map (\<lambda>g. CHR '';'' # g) gs) @ CHR 0x0A # rest)
      = (case end_line (((end_field p)\<lparr>field := g\<rparr>)\<lparr>line_fields :=
             line_fields ((end_field p)\<lparr>field := g\<rparr>) @ field ((end_field p)\<lparr>field := g\<rparr>) # gs,
             field := []\<rparr>) of
          Inl e \<Rightarrow> Inl e
        | Inr p' \<Rightarrow> tokenize_bytes START_RECORD p' rest)"
    by (rule Cons.IH [OF pgs]) simp
  show ?case
    using step run ih by (simp add: end_field_def)
qed


lemma end_line_ok:
  assumes "line_fields p = []" and "field p = []"
    and "lines p = [] \<or> length (last (lines p)) = length r"
  shows "end_line (p\<lparr>line_fields := r\<rparr>) = Inr (p\<lparr>lines := lines p @ [r]\<rparr>)"
  using assms by (cases p) (auto simp: end_line_def Let_def)

lemma tokenize_line:
  assumes "plain_row r" and "line_fields p = []" and "field p = []"
  shows "tokenize_bytes START_RECORD p (csv_line r @ rest)
     = (case end_line (p\<lparr>line_fields := r\<rparr>) of
          Inl e \<Rightarrow> Inl e
        | Inr p' \<Rightarrow> tokenize_bytes START_RECORD p' rest)"
proof -
  obtain f gs where r: "r = f # gs"
    using assms(1) by (cases r) (auto simp: plain_row_def)
  have pf: "list_all plain_char f" and pgs: "list_all (list_all plain_char) gs"
    using assms(1) r by (simp_all add: plain_row_def)
  have single: "gs \<noteq> []" if "list_all IS_WHITESPACE f"
    using that assms(1) r by (auto simp: plain_row_def)
  let ?tail = "concat (map (\<lambda>g. CHR '';'' # g) gs) @ CHR 0x0A # rest"
  have line: "csv_line r @ rest = f @ ?tail"
    by (simp add: csv_line_def r)
  have goal: "p\<lparr>line_fields := line_fields p @ f # gs, field := []\<rparr> = p\<lparr>line_fields := r\<rparr>"
    using assms(2,3) r by (cases p) simp
  have first: "\<exists>s. tokenize_bytes START_RECORD p (f @ ?tail) = tokenize_bytes s (p\<lparr>field := f\<rparr>) ?tail
      \<and> (s = START_FIELD \<or> s = IN_FIELD \<or> s = WHITESPACE_LINE \<and> gs \<noteq> [])"
  proof (cases f)
    case Nil
    then have "gs \<noteq> []" using single by simp
    then obtain g gs' where "gs = g # gs'" by (cases gs) auto
    then have "tokenize_bytes START_RECORD p (f @ ?tail) = tokenize_bytes START_FIELD p ?tail"
      using Nil
      by (simp add: start_record_def start_field_def delimiter_def quotechar_def
          IS_TERMINATOR_def IS_CARRIAGE_def IS_WHITESPACE_def)
    then show ?thesis
      using Nil assms(3) by (auto simp: field_update_same)
  next
    case (Cons c w)
    then have pc: "plain_char c" and pw: "list_all plain_char w"
      using pf by simp_all
    show ?thesis
    proof (cases "IS_WHITESPACE c")
      case True
      have "tokenize_bytes START_RECORD p (f @ ?tail)
          = tokenize_bytes WHITESPACE_LINE (PUSH_CHAR c p) (w @ ?tail)"
        using True pc Cons by (simp add: start_record_def plain_char_def)
      also have "\<dots> = tokenize_bytes (if list_all IS_WHITESPACE w then WHITESPACE_LINE else IN_FIELD)
          ((PUSH_CHAR c p)\<lparr>field := field (PUSH_CHAR c p) @ w\<rparr>) ?tail"
        by (rule whitespace_run [OF pw])
      finally show ?thesis
        using True Cons assms(3) single by (auto simp: PUSH_CHAR_def)
    next
      case False
      have "tokenize_bytes START_RECORD p (f @ ?tail)
          = tokenize_bytes IN_FIELD (PUSH_CHAR c p) (w @ ?tail)"
        using False pc Cons by (simp add: start_record_def start_field_def plain_char_def)
      also have "\<dots> = tokenize_bytes IN_FIELD
          ((PUSH_CHAR c p)\<lparr>field := field (PUSH_CHAR c p) @ w\<rparr>) ?tail"
        by (rule in_field_run [OF pw])
      finally show ?thesis
        using Cons assms(3) by (auto simp: PUSH_CHAR_def)
    qed
  qed
  then obtain s where s1: "tokenize_bytes START_RECORD p (f @ ?tail) = tokenize_bytes s (p\<lparr>field := f\<rparr>) ?tail"
    and s2: "s = START_FIELD \<or> s = IN_FIELD \<or> s = WHITESPACE_LINE \<and> gs \<noteq> []"
    by blast
  have "tokenize_bytes s (p\<lparr>field := f\<rparr>) ?tail
      = (case end_line ((p\<lparr>field := f\<rparr>)\<lparr>line_fields := line_fields (p\<lparr>field := f\<rparr>) @ field (p\<lparr>field := f\<rparr>) # gs,
            field := []\<rparr>) of
          Inl e \<Rightarrow> Inl e
        | Inr p' \<Rightarrow> tokenize_bytes START_RECORD p' rest)"
    by (rule rest_of_line [OF pgs s2])
  then show ?thesis
    using s1 line goal by simp
qed

lemma tokenize_table:
  assumes "\<forall>r\<in>set table. plain_row r \<and> length r = n"
    and "line_fields p = []" and "field p = []"
    and "lines p = [] \<or> length (last (lines p)) = n"
  shows "tokenize_bytes START_RECORD p (to_csv table) = Inr (p\<lparr>lines := lines p @ table\<rparr>)"
  using assms
proof (induction table arbitrary: p)
  case Nil
  then show ?case by (cases p) (simp add: to_csv_def)
next
  case (Cons r table)
  have r: "plain_row r" "length r = n" using Cons.prems(1) by simp_all
  have el: "end_line (p\<lparr>line_fields := r\<rparr>) = Inr (p\<lparr>lines := lines p @ [r]\<rparr>)"
    using Cons.prems r by (intro end_line_ok) auto
  have "tokenize_bytes START_RECORD p (to_csv (r # table))
      = tokenize_bytes START_RECORD (p\<lparr>lines := lines p @ [r]\<rparr>) (to_csv table)"
    using tokenize_line [OF r(1) Cons.prems(2,3), of "to_csv table"] el
    by (simp add: to_csv_def)
  also have "\<dots> = Inr ((p\<lparr>lines := lines p @ [r]\<rparr>)\<lparr>lines := lines (p\<lparr>lines := lines p @ [r]\<rparr>) @ table\<rparr>)"
    using Cons.prems r by (intro Cons.IH) auto
  finally show ?case by simp
qed

lemma tokenize_all_to_csv:
  assumes "\<forall>r\<in>set table. plain_row r \<and> length r = n"
  shows "tokenize_all (to_csv table) = Inr table"
  using tokenize_table [OF assms, of "\<lparr>lines = [], line_fields = [], field = []\<rparr>"]
  by (simp add: tokenize_all_def)

section \<open>Loading the scenario\<close>

lemma tokenize_scenario: "tokenize_all (to_csv scenario_table) = Inr scenario_table"
  by (rule tokenize_all_to_csv [where n = 3])
     (simp add: scenario_table_def plain_row_def plain_char_def delimiter_def quotechar_def
       IS_TERMINATOR_def IS_CARRIAGE_def IS_WHITESPACE_def)

lemma scenario_columns:
  "convert_tokens [''01/05/2019'', ''02/01/2019'', ''01/12/2019'']
     = [Str ''01/05/2019'', Str ''02/01/2019'', Str ''01/12/2019'']"
  "convert_tokens [''CityA'', ''CityB'', ''CityA''] = [Str ''CityA'', Str ''CityB'', Str ''CityA'']"
  "convert_tokens [''100,50'', ''75,00'', ''50,25''] = [Num (201 / 2), Num 75, Num (201 / 4)]"
  by (simp_all add: column_defs number_defs)

lemma read_scenario:
  "read_csv scenario_fs p =
     Inr \<lparr>columns = [''Date'', ''City'', ''Total''],
          rows =
            [\<lparr>pos = 0, cells = [(''Date'', Str ''01/05/2019''), (''City'', Str ''CityA''),
                                  (''Total'', Num (201 / 2))]\<rparr>,
             \<lparr>pos = 1, cells = [(''Date'', Str ''02/01/2019''), (''City'', Str ''CityB''),
                                  (''Total'', Num 75)]\<rparr>,
             \<lparr>pos = 2, cells = [(''Date'', Str ''01/12/2019''), (''City'', Str ''CityA''),
                                  (''Total'', Num (201 / 4))]\<rparr>]\<rparr>"
  by (simp add: read_csv_def scenario_fs_def tokenize_scenario)
     (simp add: scenario_table_def data_frame_def scenario_columns)

lemma scenario_dates:
  "to_datetime [Str ''01/05/2019'', Str ''02/01/2019'', Str ''01/12/2019'']
     = Inr [Timestamp (2019, 1, 5), Timestamp (2019, 2, 1), Timestamp (2019, 1, 12)]"
  by (simp add: strptime_defs)

lemma digit_chars:
  "char_of (48 :: nat) = CHR ''0''" "char_of (49 :: nat) = CHR ''1''"
  "char_of (50 :: nat) = CHR ''2''" "char_of (51 :: nat) = CHR ''3''"
  "char_of (52 :: nat) = CHR ''4''" "char_of (53 :: nat) = CHR ''5''"
  "char_of (54 :: nat) = CHR ''6''" "char_of (55 :: nat) = CHR ''7''"
  "char_of (56 :: nat) = CHR ''8''" "char_of (57 :: nat) = CHR ''9''"
  by (simp_all add: char_of_def bit_Suc_0_iff)

lemma load_scenario: "load_data insertion_argsort scenario_fs p = Inr scenario_frame"
  by (simp add: load_data_def read_scenario frame_defs scenario_dates
      sort_defs month_defs scenario_frame_def digit_chars)

section \<open>The cache of \<^verbatim>\<open>load_data\<close>\<close>

lemma cache_after_call:
  assumes "load_data_cached kind fs st p = (Inr ref, st1)"
  shows "cache st1 = Some (p, ref)"
  using assms
  by (auto simp: load_data_cached_def cache_miss_def Let_def
      split: option.splits sum.splits if_splits prod.splits)

lemma cold_call:
  assumes "load_data_cached kind fs st p = (Inr ref, st1)"
    and "map_option fst (cache st) \<noteq> Some p"
  shows "load_data kind fs p = Inr (heap st1 ! ref)"
    and "ref = length (heap st)"
    and "st1 = st\<lparr>misses := misses st + 1, body_runs := body_runs st + 1,
                   heap := heap st @ [heap st1 ! ref], cache := Some (p, ref)\<rparr>"
    and "body_runs st1 = body_runs st + 1"
    and "ref < length (heap st1)"
  using assms
  by (auto simp: load_data_cached_def cache_miss_def Let_def
      split: option.splits sum.splits if_splits prod.splits)

lemma warm_call:
  assumes "load_data_cached kind fs st p = (Inr ref, st1)"
    and "map_option fst (cache st) = Some p"
  shows "cache st = Some (p, ref)" and "st1 = st\<lparr>hits := hits st + 1\<rparr>"
  using assms
  by (auto simp: load_data_cached_def cache_miss_def Let_def
      split: option.splits sum.splits if_splits prod.splits)

lemma other_path_call:
  assumes "cache st1 = Some (p, ref)" and "p' \<noteq> p"
  shows "load_data_cached kind fs' st1 p' =
           (case load_data kind fs' p' of
              Inl e \<Rightarrow> (Inl e, st1\<lparr>misses := misses st1 + 1, body_runs := body_runs st1 + 1\<rparr>)
            | Inr df \<Rightarrow>
                (Inr (length (heap st1)),
                 st1\<lparr>misses := misses st1 + 1, body_runs := body_runs st1 + 1,
                     heap := heap st1 @ [df], cache := Some (p', length (heap st1))\<rparr>))"
  using assms
  by (simp add: load_data_cached_def cache_miss_def Let_def split: sum.splits)

text \<open>
  Claim C5. Take a call of the loader with the path \<open>p\<close> that returns a table, as the
  reference \<open>ref\<close> into the heap of the process.

  When the cache did not hold \<open>p\<close> before the call, the call ran the body once (one more
  run, one more miss): the object returned is newly allocated at the end of the heap,
  which is otherwise unchanged, and it is the table the body of the loader computes
  from the file at \<open>p\<close>; the cache holds it for \<open>p\<close> afterwards. When the cache held \<open>p\<close>,
  the call returned the cached object and only counted a hit.

  The next call with \<open>p\<close> returns the same object (the same reference, the heap being
  left as it was) as a cache hit, without running the body again, whatever the file
  system holds by then: the body ran once over the two calls of a cold start.

  A call with another path \<open>p'\<close> in place of that runs the body again: its result is
  what the body computes for \<open>p'\<close> on the current file system, an error that is passed
  on or a table in a newly allocated object that the cache then holds for \<open>p'\<close>, and
  never the object cached for \<open>p\<close>.
\<close>

theorem load_data_cached_twice:
  assumes "load_data_cached kind fs st p = (Inr ref, st1)"
  shows "(if map_option fst (cache st) = Some p
          then cache st = Some (p, ref) \<and> st1 = st\<lparr>hits := hits st + 1\<rparr>
          else load_data kind fs p = Inr (heap st1 ! ref)
             \<and> ref = length (heap st)
             \<and> st1 = st\<lparr>misses := misses st + 1, body_runs := body_runs st + 1,
                         heap := heap st @ [heap st1 ! ref], cache := Some (p, ref)\<rparr>
             \<and> ref < length (heap st1)
             \<and> body_runs (snd (load_data_cached kind fs' st1 p)) = body_runs st + 1)
       \<and> load_data_cached kind fs' st1 p = (Inr ref, st1\<lparr>hits := hits st1 + 1\<rparr>)
       \<and> (p' \<noteq> p \<longrightarrow>
            load_data_cached kind fs' st1 p' =
              (case load_data kind fs' p' of
                 Inl e \<Rightarrow>
                   (Inl e, st1\<lparr>misses := misses st1 + 1, body_runs := body_runs st1 + 1\<rparr>)
               | Inr df \<Rightarrow>
                   (Inr (length (heap st1)),
                    st1\<lparr>misses := misses st1 + 1, body_runs := body_runs st1 + 1,
                        heap := heap st1 @ [df], cache := Some (p', length (heap st1))\<rparr>))
          \<and> (ref < length (heap st1) \<longrightarrow> fst (load_data_cached kind fs' st1 p') \<noteq> Inr ref))"
proof -
  have c: "cache st1 = Some (p, ref)"
    using assms by (rule cache_after_call)
  have hit: "load_data_cached kind fs' st1 p = (Inr ref, st1\<lparr>hits := hits st1 + 1\<rparr>)"
    by (simp add: load_data_cached_def c)
  have first: "cache st = Some (p, ref) \<and> st1 = st\<lparr>hits := hits st + 1\<rparr>"
    if "map_option fst (cache st) = Some p"
    using warm_call [OF assms that] by simp
  have cold: "load_data kind fs p = Inr (heap st1 ! ref)
             \<and> ref = length (heap st)
             \<and> st1 = st\<lparr>misses := misses st + 1, body_runs := body_runs st + 1,
                         heap := heap st @ [heap st1 ! ref], cache := Some (p, ref)\<rparr>
             \<and> ref < length (heap st1)"
    if "map_option fst (cache st) \<noteq> Some p"
    using cold_call [OF assms that] by simp
  have runs: "body_runs (snd (load_data_cached kind fs' st1 p)) = body_runs st + 1"
    if "map_option fst (cache st) \<noteq> Some p"
    using cold_call(4) [OF assms that] by (simp add: hit)
  have other: "load_data_cached kind fs' st1 p' =
              (case load_data kind fs' p' of
                 Inl e \<Rightarrow>
                   (Inl e, st1\<lparr>misses := misses st1 + 1, body_runs := body_runs st1 + 1\<rparr>)
               | Inr df \<Rightarrow>
                   (Inr (length (heap st1)),
                    st1\<lparr>misses := misses st1 + 1, body_runs := body_runs st1 + 1,
                        heap := heap st1 @ [df], cache := Some (p', length (heap st1))\<rparr>))"
    if "p' \<noteq> p"
    using c that by (rule other_path_call)
  have stale: "fst (load_data_cached kind fs' st1 p') \<noteq> Inr ref"
    if "p' \<noteq> p" and "ref < length (heap st1)"
    using that by (simp add: other split: sum.splits)
  show ?thesis
  proof (cases "map_option fst (cache st) = Some p")
    case True
    from first [OF True] hit other stale show ?thesis
      unfolding if_P [OF True] by blast
  next
    case False
    from cold [OF False] runs [OF False] hit other stale show ?thesis
      unfolding if_not_P [OF False] by blast
  qed
qed


theorem load_data_cached_twice_witness:
  "load_data_cached insertion_argsort scenario_fs new_process ''a.csv''
     = (Inr 0, \<lparr>cache = Some (''a.csv'', 0), heap = [scenario_frame],
                hits = 0, misses = 1, body_runs = 1\<rparr>)
   \<and> map_option fst (cache new_process) \<noteq> Some ''a.csv''
   \<and> load_data insertion_argsort scenario_fs ''a.csv'' = Inr scenario_frame
   \<and> length (rows scenario_frame) = 3
   \<and> load_data_cached insertion_argsort header_only_file
       \<lparr>cache = Some (''a.csv'', 0), heap = [scenario_frame],
        hits = 0, misses = 1, body_runs = 1\<rparr> ''a.csv''
     = (Inr 0, \<lparr>cache = Some (''a.csv'', 0), heap = [scenario_frame],
                hits = 1, misses = 1, body_runs = 1\<rparr>)
   \<and> ''b.csv'' \<noteq> ''a.csv''
   \<and> load_data_cached insertion_argsort header_only_file
       \<lparr>cache = Some (''a.csv'', 0), heap = [scenario_frame],
        hits = 0, misses = 1, body_runs = 1\<rparr> ''b.csv''
     = (Inr 1, \<lparr>cache = Some (''b.csv'', 1),
                heap = [scenario_frame, \<lparr>columns = [''Date'', ''Month''], rows = []\<rparr>],
                hits = 0, misses = 2, body_runs = 2\<rparr>)"
proof -
  have first: "load_data_cached insertion_argsort scenario_fs new_process ''a.csv''
     = (Inr 0, \<lparr>cache = Some (''a.csv'', 0), heap = [scenario_frame],
                hits = 0, misses = 1, body_runs = 1\<rparr>)"
    by (simp add: load_data_cached_def cache_miss_def new_process_def load_scenario)
  have cold: "map_option fst (cache new_process) \<noteq> Some ''a.csv''"
    by (simp add: new_process_def)
  have n: "length (rows scenario_frame) = 3"
    by (simp add: scenario_frame_def)
  show ?thesis
    using first cold n load_header_only [of "''b.csv''"]
      load_data_cached_twice [OF first, of header_only_file "''b.csv''"]
    by (simp add: new_process_def)
qed

section \<open>Columns, cells and the positions sorted by \<open>nargsort\<close>\<close>

lemma map_err_Inr: "map_err f xs = Inr ys \<longleftrightarrow> list_all2 (\<lambda>x y. f x = Inr y) xs ys"
proof (induction xs arbitrary: ys)
  case Nil
  show ?case by auto
next
  case (Cons x xs)
  show ?case
    by (cases ys) (auto simp: Cons.IH [symmetric] split: sum.splits)
qed

lemma map_err_Inl: "map_err f xs = Inl e \<Longrightarrow> \<exists>x\<in>set xs. f x = Inl e"
  by (induction xs) (auto split: sum.splits)

lemma map_err_isl: "isl (map_err f xs) \<longleftrightarrow> (\<exists>x\<in>set xs. isl (f x))"
  by (induction xs) (auto split: sum.splits simp: isl_def)

lemma get_cell_update:
  "get_cell (r\<lparr>cells := AList.update k v (cells r)\<rparr>) k' = (if k' = k then v else get_cell r k')"
  by (simp add: get_cell_def update_conv')

lemma filter_not_None: "filter (\<lambda>x. x \<noteq> None) items = map Some (somes items)"
  by (induction items) (auto split: option.splits)

lemma map_nth_filter:
  "map (\<lambda>i. items ! i) (filter (\<lambda>i. P (items ! i)) [0..<length items]) = filter P items"
proof -
  have "filter P items = filter P (map (\<lambda>i. items ! i) [0..<length items])"
    by (simp add: map_nth)
  also have "\<dots> = map (\<lambda>i. items ! i) (filter (\<lambda>i. P (items ! i)) [0..<length items])"
    by (simp add: filter_map comp_def)
  finally show ?thesis by simp
qed

lemma non_nan_idx:
  fixes items :: "'a option list"
  defines "nn \<equiv> filter (\<lambda>i. items ! i \<noteq> None) [0..<length items]"
  shows "length nn = length (somes items)"
    and "j < length (somes items) \<Longrightarrow> items ! (nn ! j) = Some (somes items ! j)"
    and "j < length (somes items) \<Longrightarrow> nn ! j < length items"
proof -
  have "map (\<lambda>i. items ! i) nn = filter (\<lambda>x. x \<noteq> None) items"
    unfolding nn_def by (rule map_nth_filter)
  also have "\<dots> = map Some (somes items)"
    by (rule filter_not_None)
  finally have m: "map (\<lambda>i. items ! i) nn = map Some (somes items)" .
  show l: "length nn = length (somes items)"
    using arg_cong [OF m, of length] by simp
  show "items ! (nn ! j) = Some (somes items ! j)" if "j < length (somes items)"
    using arg_cong [OF m, of "\<lambda>xs. xs ! j"] that l by simp
  show "nn ! j < length items" if "j < length (somes items)"
  proof -
    have "nn ! j \<in> set nn" using that l by simp
    then show ?thesis by (simp add: nn_def)
  qed
qed

lemma nargsort_perm:
  assumes "argsort_contract kind"
  shows "mset (nargsort kind items) = mset [0..<length items]"
proof -
  define nn where "nn = filter (\<lambda>i. items ! i \<noteq> None) [0..<length items]"
  define na where "na = filter (\<lambda>i. items ! i = None) [0..<length items]"
  have l: "length nn = length (somes items)"
    unfolding nn_def by (rule non_nan_idx(1))
  have "mset (kind (somes items)) = mset [0..<length nn]"
    using assms by (simp add: argsort_contract_def l)
  then have "mset (map (\<lambda>j. nn ! j) (kind (somes items))) = mset (map (\<lambda>j. nn ! j) [0..<length nn])"
    by (metis mset_map)
  then have "mset (map (\<lambda>j. nn ! j) (kind (somes items))) = mset nn"
    by (simp add: map_nth)
  moreover have "mset nn + mset na = mset [0..<length items]"
  proof -
    have "na = filter (\<lambda>i. \<not> items ! i \<noteq> None) [0..<length items]"
      by (simp only: na_def not_not)
    then show ?thesis
      unfolding nn_def by (simp only: mset_filter multiset_partition [symmetric])
  qed
  ultimately show ?thesis
    by (simp add: nargsort_def Let_def nn_def na_def)
qed

lemma kind_range:
  assumes "argsort_contract kind"
  shows "set (kind ks) = {0..<length ks}"
proof -
  have "mset (kind ks) = mset [0..<length ks]"
    using assms by (simp add: argsort_contract_def)
  then have "set (kind ks) = set [0..<length ks]"
    by (rule mset_eq_setD)
  then show ?thesis by simp
qed

lemma nargsort_range:
  assumes "argsort_contract kind"
  shows "set (nargsort kind items) = {0..<length items}"
    and "length (nargsort kind items) = length items"
    and "distinct (nargsort kind items)"
proof -
  have m: "mset (nargsort kind items) = mset [0..<length items]"
    using assms by (rule nargsort_perm)
  have "set (nargsort kind items) = set [0..<length items]"
    using m by (rule mset_eq_setD)
  then show "set (nargsort kind items) = {0..<length items}" by simp
  show "length (nargsort kind items) = length items"
    using mset_eq_length [OF m] by simp
  show "distinct (nargsort kind items)"
    using mset_eq_imp_distinct_iff [OF m] by simp
qed

lemma nargsort_sorted:
  assumes "argsort_contract kind"
  shows "sorted (map (\<lambda>i. case items ! i of Some d \<Rightarrow> (0 :: nat, d) | None \<Rightarrow> (1, (0, 0, 0)))
                    (nargsort kind items))"
proof -
  define nn where "nn = filter (\<lambda>i. items ! i \<noteq> None) [0..<length items]"
  define na where "na = filter (\<lambda>i. items ! i = None) [0..<length items]"
  define vals where "vals = somes items"
  define key where "key = (\<lambda>i. case items ! i of Some d \<Rightarrow> (0 :: nat, d) | None \<Rightarrow> (1, (0, 0, 0)))"
  have r: "set (kind vals) = {0..<length vals}"
    using assms by (rule kind_range)
  have s: "sorted (map (\<lambda>j. vals ! j) (kind vals))"
    using assms by (simp add: argsort_contract_def)
  have k: "key (nn ! j) = (0, vals ! j)" if "j \<in> set (kind vals)" for j
    using that r non_nan_idx(2) [of j items] by (simp add: key_def nn_def vals_def)
  have "map key (map (\<lambda>j. nn ! j) (kind vals)) = map (\<lambda>j. (0, vals ! j)) (kind vals)"
    using k by simp
  also have "\<dots> = map (Pair 0) (map (\<lambda>j. vals ! j) (kind vals))"
    by simp
  finally have e: "map key (map (\<lambda>j. nn ! j) (kind vals)) = map (Pair 0) (map (\<lambda>j. vals ! j) (kind vals))" .
  have s1: "sorted (map key (map (\<lambda>j. nn ! j) (kind vals)))"
    unfolding e using s by (simp add: sorted_map sorted_wrt_map less_eq_prod_def
        sorted_wrt_mono_rel [where P = "\<lambda>x y. x \<le> y"])
  have k2: "key i = (1, (0, 0, 0))" if "i \<in> set na" for i
    using that by (simp add: na_def key_def)
  have "map key na = replicate (length na) (1, (0, 0, 0))"
    using k2 by (simp add: map_replicate_const [symmetric])
  then have s2: "sorted (map key na)"
    by (simp add: sorted_replicate)
  have b: "x \<le> y" if "x \<in> set (map key (map (\<lambda>j. nn ! j) (kind vals)))" and "y \<in> set (map key na)" for x y
  proof -
    from that(1) [unfolded e] have "fst x = 0" by auto
    moreover have "y = (1, (0, 0, 0))" using that(2) k2 by auto
    ultimately show ?thesis by (cases x) (simp add: less_eq_prod_def)
  qed
  have "sorted (map key (map (\<lambda>j. nn ! j) (kind vals) @ na))"
    using s1 s2 b by (simp add: sorted_append)
  then show ?thesis
    by (simp add: nargsort_def Let_def nn_def na_def vals_def key_def)
qed

lemma nargsort_stable:
  assumes "argsort_contract kind" and "argsort_stable kind"
  shows "sorted (map (\<lambda>i. (case items ! i of Some d \<Rightarrow> (0 :: nat, d) | None \<Rightarrow> (1, (0, 0, 0)), i))
                    (nargsort kind items))"
proof -
  define nn where "nn = filter (\<lambda>i. items ! i \<noteq> None) [0..<length items]"
  define na where "na = filter (\<lambda>i. items ! i = None) [0..<length items]"
  define vals where "vals = somes items"
  define key where "key = (\<lambda>i. (case items ! i of Some d \<Rightarrow> (0 :: nat, d) | None \<Rightarrow> (1, (0, 0, 0)), i))"
  have l: "length nn = length vals"
    unfolding nn_def vals_def by (rule non_nan_idx(1))
  have r: "set (kind vals) = {0..<length vals}"
    using assms(1) by (rule kind_range)
  have s: "sorted_wrt (\<lambda>j j'. (vals ! j, j) \<le> (vals ! j', j')) (kind vals)"
    using assms(2) by (simp add: argsort_stable_def sorted_wrt_map)
  have sn: "sorted nn"
    unfolding nn_def by (simp add: sorted_wrt_filter)
  have k: "key (nn ! j) = ((0, vals ! j), nn ! j)" if "j \<in> set (kind vals)" for j
    using that r non_nan_idx(2) [of j items] by (simp add: key_def nn_def vals_def)
  have mono: "key (nn ! j) \<le> key (nn ! j')"
    if "j \<in> set (kind vals)" and "j' \<in> set (kind vals)" and "(vals ! j, j) \<le> (vals ! j', j')" for j j'
  proof -
    have "j \<le> j' \<Longrightarrow> nn ! j \<le> nn ! j'"
      using sn that(2) r l by (simp add: sorted_nth_mono)
    then show ?thesis
      using that(3) by (auto simp: k [OF that(1)] k [OF that(2)] less_eq_prod_def less_prod_def)
  qed
  have "sorted_wrt (\<lambda>j j'. key (nn ! j) \<le> key (nn ! j')) (kind vals)"
    using s mono by (rule sorted_wrt_mono_rel [rotated]) 
  then have s1: "sorted (map key (map (\<lambda>j. nn ! j) (kind vals)))"
    by (simp add: sorted_wrt_map)
  have k2: "key i = ((1, (0, 0, 0)), i)" if "i \<in> set na" for i
    using that by (simp add: na_def key_def)
  have "sorted na"
    unfolding na_def by (simp add: sorted_wrt_filter)
  then have "sorted_wrt (\<lambda>i i'. key i \<le> key i') na"
    by (rule sorted_wrt_mono_rel [rotated]) (simp add: k2 less_eq_prod_def)
  then have s2: "sorted (map key na)"
    by (simp add: sorted_wrt_map)
  have b: "x \<le> y" if "x \<in> set (map key (map (\<lambda>j. nn ! j) (kind vals)))" and "y \<in> set (map key na)" for x y
  proof -
    have "fst (fst x) = 0" using that(1) k by auto
    moreover have "fst (fst y) = 1" using that(2) k2 by auto
    ultimately show ?thesis by (cases x, cases y) (auto simp: less_eq_prod_def less_prod_def)
  qed
  have "sorted (map key (map (\<lambda>j. nn ! j) (kind vals) @ na))"
    using s1 s2 b by (simp add: sorted_append)
  then show ?thesis
    by (simp add: nargsort_def Let_def nn_def na_def vals_def key_def)
qed

lemma insertion_argsort_contract: "argsort_contract insertion_argsort"
  by (simp add: argsort_contract_def insertion_argsort_def)

lemma insort_key_stable:
  fixes f :: "nat \<Rightarrow> 'a :: linorder"
  assumes "sorted (map (\<lambda>i. (f i, i)) ys)" and "\<forall>y\<in>set ys. x \<le> y"
  shows "sorted (map (\<lambda>i. (f i, i)) (insort_key f x ys))"
  using assms
proof (induction ys)
  case Nil
  show ?case by simp
next
  case (Cons y ys)
  show ?case
  proof (cases "f x \<le> f y")
    case True
    have "(f x, x) \<le> (f y, y)"
      using True Cons.prems(2) by (auto simp: less_eq_prod_def)
    then have "\<forall>z\<in>set (y # ys). (f x, x) \<le> (f z, z)"
      using Cons.prems(1) by (auto intro: order_trans)
    then show ?thesis
      using True Cons.prems(1) by simp
  next
    case False
    have "(f y, y) \<le> (f x, x)"
      using False by (auto simp: less_eq_prod_def)
    moreover have "sorted (map (\<lambda>i. (f i, i)) (insort_key f x ys))"
      using Cons by simp
    ultimately show ?thesis
      using False Cons.prems(1) by (auto simp: set_insort_key)
  qed
qed

lemma insertion_argsort_stable: "argsort_stable insertion_argsort"
proof -
  have "sorted (map (\<lambda>i. (ks ! i, i)) (sort_key (\<lambda>i. ks ! i) xs))"
    if "sorted xs" for ks :: "date list" and xs :: "nat list"
    using that by (induction xs) (simp_all add: insort_key_stable)
  then show ?thesis
    by (simp add: argsort_stable_def insertion_argsort_def)
qed

section \<open>The shape of a loaded table\<close>

lemma getitem_Inr:
  "getitem df name = Inr col \<longleftrightarrow>
     name \<in> set (columns df) \<and> col = map (\<lambda>r. get_cell r name) (rows df)"
  by (auto simp: getitem_def)

lemma getitem_Inl:
  "getitem df name = Inl e \<longleftrightarrow> name \<notin> set (columns df) \<and> e = KeyError name"
  by (auto simp: getitem_def)

lemma columns_setitem:
  "columns (setitem df name vals) =
     (if name \<in> set (columns df) then columns df else columns df @ [name])"
  by (simp add: setitem_def)

lemma rows_setitem:
  assumes "length vals = length (rows df)"
  shows "length (rows (setitem df name vals)) = length (rows df)"
    and "i < length (rows df) \<Longrightarrow>
         rows (setitem df name vals) ! i
           = (rows df ! i)\<lparr>cells := AList.update name (vals ! i) (cells (rows df ! i))\<rparr>"
  using assms by (simp_all add: setitem_def)

lemma to_period_M_str_Inr:
  "to_period_M_str c = Inr m \<longleftrightarrow>
     (\<exists>y mo d. c = Timestamp (y, mo, d) \<and> m = Str (period_str (y, mo)))
     \<or> c = NaT \<and> m = Str ''NaT''"
  by (cases c) auto

lemma array_strptime_val_Inr:
  "array_strptime_val c = Inr t \<Longrightarrow> t = NaT \<or> (\<exists>d. t = Timestamp d)"
  by (cases c) (auto split: if_splits option.splits)

text \<open>The shape of a table that \<open>load_data\<close> returns.\<close>

lemma load_data_Inr:
  assumes "load_data kind fs p = Inr df"
  obtains df0 dates months where
    "read_csv fs p = Inr df0"
    "''Date'' \<in> set (columns df0)"
    "list_all2 (\<lambda>r t. array_strptime_val (get_cell r ''Date'') = Inr t) (rows df0) dates"
    "list_all2 (\<lambda>r m. to_period_M_str (get_cell r ''Date'') = Inr m)
       (map (\<lambda>i. rows (setitem df0 ''Date'' dates) ! i) (nargsort kind (map dt_value dates)))
       months"
    "df = setitem ((setitem df0 ''Date'' dates)
                    \<lparr>rows := map (\<lambda>i. rows (setitem df0 ''Date'' dates) ! i)
                                 (nargsort kind (map dt_value dates))\<rparr>) ''Month'' months"
proof -
  from assms obtain df0 where r: "read_csv fs p = Inr df0"
    by (auto simp: load_data_def split: sum.splits)
  from assms r obtain col where c: "getitem df0 ''Date'' = Inr col"
    by (auto simp: load_data_def split: sum.splits)
  from assms r c obtain dates where d: "to_datetime col = Inr dates"
    by (auto simp: load_data_def split: sum.splits)
  define df1 where "df1 = setitem df0 ''Date'' dates"
  from assms r c d obtain df' where s: "sort_values kind df1 ''Date'' = Inr df'"
    by (auto simp: load_data_def df1_def split: sum.splits)
  from assms r c d s obtain col' where c': "getitem df' ''Date'' = Inr col'"
    by (auto simp: load_data_def df1_def split: sum.splits)
  from assms r c d s c' obtain months where
    m: "dt_to_period_M_astype_str col' = Inr months" and df: "df = setitem df' ''Month'' months"
    by (auto simp: load_data_def df1_def split: sum.splits)
  have col: "''Date'' \<in> set (columns df0)" "col = map (\<lambda>r. get_cell r ''Date'') (rows df0)"
    using c by (simp_all add: getitem_Inr)
  have la: "list_all2 (\<lambda>c t. array_strptime_val c = Inr t) col dates"
    using d by (simp add: to_datetime_def map_err_Inr)
  then have la': "list_all2 (\<lambda>r t. array_strptime_val (get_cell r ''Date'') = Inr t) (rows df0) dates"
    by (simp add: col(2) list_all2_map1)
  have len: "length dates = length (rows df0)"
    using la' by (simp add: list_all2_lengthD)
  have col1: "map (\<lambda>r. get_cell r ''Date'') (rows df1) = dates"
    using len by (auto intro!: nth_equalityI simp: df1_def rows_setitem get_cell_update)
  have df': "df' = df1\<lparr>rows := map (\<lambda>i. rows df1 ! i) (nargsort kind (map dt_value dates))\<rparr>"
    using s by (auto simp: sort_values_def getitem_def col1 split: sum.splits if_splits)
  have "col' = map (\<lambda>r. get_cell r ''Date'') (rows df')"
    using c' by (simp add: getitem_Inr)
  then have lm: "list_all2 (\<lambda>r m. to_period_M_str (get_cell r ''Date'') = Inr m) (rows df') months"
    using m by (simp add: dt_to_period_M_astype_str_def map_err_Inr list_all2_map1)
  show ?thesis
    using that [OF r col(1) la'] lm df by (simp add: df' df1_def)
qed

lemma loaded_month:
  assumes "load_data kind fs p = Inr df"
  shows "''Date'' \<in> set (columns df)" and "''Month'' \<in> set (columns df)"
    and "\<forall>r\<in>set (rows df). to_period_M_str (get_cell r ''Date'') = Inr (get_cell r ''Month'')"
proof -
  from assms obtain df0 dates months where
    c: "''Date'' \<in> set (columns df0)"
    and lm: "list_all2 (\<lambda>r m. to_period_M_str (get_cell r ''Date'') = Inr m)
       (map (\<lambda>i. rows (setitem df0 ''Date'' dates) ! i) (nargsort kind (map dt_value dates)))
       months"
    and df: "df = setitem ((setitem df0 ''Date'' dates)
                    \<lparr>rows := map (\<lambda>i. rows (setitem df0 ''Date'' dates) ! i)
                                 (nargsort kind (map dt_value dates))\<rparr>) ''Month'' months"
    by (rule load_data_Inr)
  define rs2 where "rs2 = map (\<lambda>i. rows (setitem df0 ''Date'' dates) ! i) (nargsort kind (map dt_value dates))"
  define df2 where "df2 = (setitem df0 ''Date'' dates)\<lparr>rows := rs2\<rparr>"
  have df': "df = setitem df2 ''Month'' months"
    using df by (simp add: df2_def rs2_def)
  have len: "length months = length (rows df2)"
    using list_all2_lengthD [OF lm] by (simp add: df2_def rs2_def)
  show "''Date'' \<in> set (columns df)"
    using c by (simp add: df' columns_setitem df2_def)
  show "''Month'' \<in> set (columns df)"
    by (simp add: df' columns_setitem)
  show "\<forall>r\<in>set (rows df). to_period_M_str (get_cell r ''Date'') = Inr (get_cell r ''Month'')"
  proof
    fix r assume "r \<in> set (rows df)"
    then obtain i where i: "i < length (rows df2)" and r: "r = rows df ! i"
      using rows_setitem(1) [OF len, of "''Month''"] by (auto simp: in_set_conv_nth df')
    have r': "r = (rows df2 ! i)\<lparr>cells := AList.update ''Month'' (months ! i) (cells (rows df2 ! i))\<rparr>"
      using rows_setitem(2) [OF len i, of "''Month''"] by (simp add: r df')
    have "to_period_M_str (get_cell (rs2 ! i) ''Date'') = Inr (months ! i)"
      using lm i by (simp add: list_all2_conv_all_nth rs2_def [symmetric] df2_def)
    then show "to_period_M_str (get_cell r ''Date'') = Inr (get_cell r ''Month'')"
      by (simp add: r' get_cell_update df2_def)
  qed
qed

lemma read_csv_pos:
  assumes "read_csv fs p = Inr df0"
  shows "map pos (rows df0) = [0..<length (rows df0)]"
  using assms
  by (auto simp: read_csv_def data_frame_def Let_def comp_def
      split: fs_entry.splits sum.splits list.splits)

lemma loaded_rows:
  assumes "load_data kind fs p = Inr df" and "argsort_contract kind"
  obtains df0 dates perm where
    "read_csv fs p = Inr df0"
    "list_all2 (\<lambda>r t. array_strptime_val (get_cell r ''Date'') = Inr t) (rows df0) dates"
    "perm = nargsort kind (map dt_value dates)"
    "mset perm = mset [0..<length (rows df0)]"
    "length (rows df) = length (rows df0)"
    "\<forall>k<length (rows df0).
        pos (rows df ! k) = perm ! k
      \<and> get_cell (rows df ! k) ''Date'' = dates ! (perm ! k)
      \<and> (\<forall>name. name \<noteq> ''Date'' \<and> name \<noteq> ''Month'' \<longrightarrow>
            get_cell (rows df ! k) name = get_cell (rows df0 ! (perm ! k)) name)"
proof -
  from assms(1) obtain df0 dates months where
    r: "read_csv fs p = Inr df0"
    and la: "list_all2 (\<lambda>r t. array_strptime_val (get_cell r ''Date'') = Inr t) (rows df0) dates"
    and lm: "list_all2 (\<lambda>r m. to_period_M_str (get_cell r ''Date'') = Inr m)
       (map (\<lambda>i. rows (setitem df0 ''Date'' dates) ! i) (nargsort kind (map dt_value dates)))
       months"
    and df: "df = setitem ((setitem df0 ''Date'' dates)
                    \<lparr>rows := map (\<lambda>i. rows (setitem df0 ''Date'' dates) ! i)
                                 (nargsort kind (map dt_value dates))\<rparr>) ''Month'' months"
    by (rule load_data_Inr)
  define perm where "perm = nargsort kind (map dt_value dates)"
  define rs2 where "rs2 = map (\<lambda>i. rows (setitem df0 ''Date'' dates) ! i) perm"
  define df2 where "df2 = (setitem df0 ''Date'' dates)\<lparr>rows := rs2\<rparr>"
  have df': "df = setitem df2 ''Month'' months"
    using df by (simp add: df2_def rs2_def perm_def)
  have len: "length dates = length (rows df0)"
    using la by (simp add: list_all2_lengthD)
  have m: "mset perm = mset [0..<length (rows df0)]"
    using nargsort_perm [OF assms(2), of "map dt_value dates"] by (simp add: perm_def len)
  have lp: "length perm = length (rows df0)"
    using mset_eq_length [OF m] by simp
  have rng: "perm ! k < length (rows df0)" if "k < length (rows df0)" for k
  proof -
    have "perm ! k \<in> set perm" using that lp by simp
    also have "set perm = set [0..<length (rows df0)]" using m by (rule mset_eq_setD)
    finally show ?thesis by simp
  qed
  have l2: "length (rows df2) = length (rows df0)"
    by (simp add: df2_def rs2_def lp)
  have lmo: "length months = length (rows df2)"
    using list_all2_lengthD [OF lm] by (simp add: df2_def rs2_def perm_def)
  have l: "length (rows df) = length (rows df0)"
    using rows_setitem(1) [OF lmo, of "''Month''"] by (simp add: df' l2)
  have pos0: "map pos (rows df0) = [0..<length (rows df0)]"
    using r by (rule read_csv_pos)
  have rowk: "pos (rows df ! k) = perm ! k
      \<and> get_cell (rows df ! k) ''Date'' = dates ! (perm ! k)
      \<and> (\<forall>name. name \<noteq> ''Date'' \<and> name \<noteq> ''Month'' \<longrightarrow>
            get_cell (rows df ! k) name = get_cell (rows df0 ! (perm ! k)) name)"
    if k: "k < length (rows df0)" for k
  proof -
    have k2: "k < length (rows df2)" using k l2 by simp
    have a: "rows df ! k = (rows df2 ! k)\<lparr>cells := AList.update ''Month'' (months ! k) (cells (rows df2 ! k))\<rparr>"
      using rows_setitem(2) [OF lmo k2, of "''Month''"] by (simp add: df')
    have b: "rows df2 ! k = rows (setitem df0 ''Date'' dates) ! (perm ! k)"
      using k lp by (simp add: df2_def rs2_def)
    have c: "rows (setitem df0 ''Date'' dates) ! (perm ! k)
        = (rows df0 ! (perm ! k))\<lparr>cells := AList.update ''Date'' (dates ! (perm ! k))
                                              (cells (rows df0 ! (perm ! k)))\<rparr>"
      using rows_setitem(2) [OF len rng [OF k], of "''Date''"] .
    have "pos (rows df0 ! (perm ! k)) = perm ! k"
      using arg_cong [OF pos0, of "\<lambda>xs. xs ! (perm ! k)"] rng [OF k] by simp
    then show ?thesis
      by (simp add: a b c get_cell_def update_conv')
  qed
  show ?thesis
    using that [OF r la perm_def m l] rowk by blast
qed

lemma loaded_keys:
  assumes "load_data kind fs p = Inr df" and "argsort_contract kind"
  obtains items where
    "map (\<lambda>r. (na_last (get_cell r ''Date''), pos r)) (rows df)
       = map (\<lambda>i. (case items ! i of Some d \<Rightarrow> (0, d) | None \<Rightarrow> (1, (0, 0, 0)), i))
             (nargsort kind items)"
proof -
  from assms obtain df0 dates perm where
    "read_csv fs p = Inr df0"
    and la: "list_all2 (\<lambda>r t. array_strptime_val (get_cell r ''Date'') = Inr t) (rows df0) dates"
    and perm: "perm = nargsort kind (map dt_value dates)"
    and m: "mset perm = mset [0..<length (rows df0)]"
    and l: "length (rows df) = length (rows df0)"
    and rowk: "\<forall>k<length (rows df0).
        pos (rows df ! k) = perm ! k
      \<and> get_cell (rows df ! k) ''Date'' = dates ! (perm ! k)
      \<and> (\<forall>name. name \<noteq> ''Date'' \<and> name \<noteq> ''Month'' \<longrightarrow>
            get_cell (rows df ! k) name = get_cell (rows df0 ! (perm ! k)) name)"
    by (rule loaded_rows)
  have len: "length dates = length (rows df0)"
    using la by (simp add: list_all2_lengthD)
  have lp: "length perm = length (rows df0)"
    using mset_eq_length [OF m] by simp
  have rng: "perm ! k < length dates" if "k < length (rows df0)" for k
  proof -
    have "perm ! k \<in> set perm" using that lp by simp
    also have "set perm = set [0..<length (rows df0)]" using m by (rule mset_eq_setD)
    finally show ?thesis by (simp add: len)
  qed
  have "map (\<lambda>r. (na_last (get_cell r ''Date''), pos r)) (rows df)
       = map (\<lambda>i. (case map dt_value dates ! i of Some d \<Rightarrow> (0, d) | None \<Rightarrow> (1, (0, 0, 0)), i)) perm"
    using rowk rng by (auto intro!: nth_equalityI simp: l lp na_last_def)
  then show ?thesis
    using that by (simp add: perm)
qed

lemma loaded_sorted:
  assumes "load_data kind fs p = Inr df" and "argsort_contract kind"
  shows "sorted_by_date (rows df)"
proof -
  from assms obtain items where
    k: "map (\<lambda>r. (na_last (get_cell r ''Date''), pos r)) (rows df)
       = map (\<lambda>i. (case items ! i of Some d \<Rightarrow> (0, d) | None \<Rightarrow> (1, (0, 0, 0)), i))
             (nargsort kind items)"
    by (rule loaded_keys)
  have "map (\<lambda>r. na_last (get_cell r ''Date'')) (rows df)
      = map fst (map (\<lambda>r. (na_last (get_cell r ''Date''), pos r)) (rows df))"
    by (simp add: comp_def)
  also have "\<dots> = map (\<lambda>i. case items ! i of Some d \<Rightarrow> (0, d) | None \<Rightarrow> (1, (0, 0, 0)))
             (nargsort kind items)"
    unfolding k by (simp add: comp_def)
  finally show ?thesis
    using nargsort_sorted [OF assms(2), of items] by (simp add: sorted_by_date_def)
qed

lemma loaded_stable:
  assumes "load_data kind fs p = Inr df" and "argsort_contract kind" and "argsort_stable kind"
  shows "stable_by_date (rows df)"
proof -
  from assms(1,2) obtain items where
    k: "map (\<lambda>r. (na_last (get_cell r ''Date''), pos r)) (rows df)
       = map (\<lambda>i. (case items ! i of Some d \<Rightarrow> (0, d) | None \<Rightarrow> (1, (0, 0, 0)), i))
             (nargsort kind items)"
    by (rule loaded_keys)
  show ?thesis
    unfolding stable_by_date_def k using assms(2,3) by (rule nargsort_stable)
qed

lemma loaded_pos:
  assumes "load_data kind fs p = Inr df" and "argsort_contract kind"
  shows "mset (map pos (rows df)) = mset [0..<length (rows df)]"
proof -
  from assms obtain df0 dates perm where
    "read_csv fs p = Inr df0"
    and "list_all2 (\<lambda>r t. array_strptime_val (get_cell r ''Date'') = Inr t) (rows df0) dates"
    and "perm = nargsort kind (map dt_value dates)"
    and m: "mset perm = mset [0..<length (rows df0)]"
    and l: "length (rows df) = length (rows df0)"
    and rowk: "\<forall>k<length (rows df0).
        pos (rows df ! k) = perm ! k
      \<and> get_cell (rows df ! k) ''Date'' = dates ! (perm ! k)
      \<and> (\<forall>name. name \<noteq> ''Date'' \<and> name \<noteq> ''Month'' \<longrightarrow>
            get_cell (rows df ! k) name = get_cell (rows df0 ! (perm ! k)) name)"
    by (rule loaded_rows)
  have lp: "length perm = length (rows df0)"
    using mset_eq_length [OF m] by simp
  have "map pos (rows df) = perm"
    using rowk by (auto intro!: nth_equalityI simp: l lp)
  then show ?thesis
    by (simp add: m l)
qed

section \<open>What the month filter keeps\<close>

lemma getitem_mask_rows:
  "map fst (filter snd (zip rs (map f rs))) = filter f rs"
  by (induction rs) simp_all

lemma month_filter_rows:
  assumes "''Month'' \<in> set (columns df)"
  shows "month_filter df month =
           Inr (df\<lparr>rows := filter (\<lambda>r. case month of None \<Rightarrow> False
                                       | Some m \<Rightarrow> \<not> isna (get_cell r ''Month'') \<and> get_cell r ''Month'' = m)
                                (rows df)\<rparr>)"
  using assms
  by (simp add: month_filter_def getitem_def getitem_mask_def eq_scalar_def comp_def
      getitem_mask_rows [where f = "\<lambda>r. case month of None \<Rightarrow> False
           | Some m \<Rightarrow> \<not> isna (get_cell r ''Month'') \<and> get_cell r ''Month'' = m", unfolded map_map comp_def])

lemma month_filter_key:
  assumes "''Month'' \<in> set (columns df)"
  shows "month_filter df (Some (Str k)) =
           Inr (df\<lparr>rows := filter (\<lambda>r. get_cell r ''Month'' = Str k) (rows df)\<rparr>)"
proof -
  have "(\<lambda>r. \<not> isna (get_cell r ''Month'') \<and> get_cell r ''Month'' = Str k)
      = (\<lambda>r. get_cell r ''Month'' = Str k)"
    by (auto simp: isna_def)
  then show ?thesis
    using month_filter_rows [OF assms, of "Some (Str k)"] by simp
qed

lemma set_unique: "set (unique xs) = set xs"
  by (induction xs rule: unique.induct) auto

lemma distinct_unique: "distinct (unique xs)"
  by (induction xs rule: unique.induct) (auto simp: set_unique)

lemma partition_by_key:
  assumes "distinct ks" and "f ` set xs \<subseteq> set ks"
  shows "mset (concat (map (\<lambda>k. filter (\<lambda>x. f x = k) xs) ks)) = mset xs"
  using assms
proof (induction ks arbitrary: xs)
  case Nil
  then show ?case by simp
next
  case (Cons k ks)
  define xs' where "xs' = filter (\<lambda>x. f x \<noteq> k) xs"
  have e: "filter (\<lambda>x. f x = k') xs = filter (\<lambda>x. f x = k') xs'" if "k' \<in> set ks" for k'
    using that Cons.prems(1) by (auto simp: xs'_def intro: filter_cong)
  have "f ` set xs' \<subseteq> set ks"
    using Cons.prems(2) by (auto simp: xs'_def)
  then have a: "mset (concat (map (\<lambda>k. filter (\<lambda>x. f x = k) xs') ks)) = mset xs'"
    using Cons.IH Cons.prems(1) by simp
  have b: "map (\<lambda>k. filter (\<lambda>x. f x = k) xs) ks = map (\<lambda>k. filter (\<lambda>x. f x = k) xs') ks"
    using e by simp
  have c: "mset (filter (\<lambda>x. f x = k) xs) + mset xs' = mset xs"
    unfolding xs'_def by (simp only: mset_filter multiset_partition [symmetric])
  have "mset (concat (map (\<lambda>k. filter (\<lambda>x. f x = k) xs) (k # ks)))
      = mset (filter (\<lambda>x. f x = k) xs) + mset (concat (map (\<lambda>k. filter (\<lambda>x. f x = k) xs) ks))"
    by simp
  also have "\<dots> = mset (filter (\<lambda>x. f x = k) xs) + mset xs'"
    unfolding b a ..
  finally show ?case
    using c by simp
qed

section \<open>The month filter on a loaded table\<close>

lemma loaded_month_str:
  assumes "load_data kind fs p = Inr df" and "r \<in> set (rows df)"
  shows "\<exists>k. get_cell r ''Month'' = Str k"
  using loaded_month(3) [OF assms(1)] assms(2) by (auto simp: to_period_M_str_Inr)

text \<open>
  Claim C3. On a table returned by the loader, the month filter called with the key \<open>k\<close>
  never raises: it returns the table with exactly the rows whose \<^verbatim>\<open>Month\<close> is the
  string \<open>k\<close> (equality of strings, character by character), in their order, and the
  table without rows when no row has the key \<open>k0\<close>. The rows kept for two different keys
  are disjoint. The options of the select box are the month keys that occur in the table,
  each once, and the rows kept for these keys, taken together, are the rows of the table,
  each as often as the table has it.
\<close>

theorem month_filter_partition:
  assumes "load_data kind fs p = Inr df"
  shows "month_filter df (Some (Str k))
           = Inr (df\<lparr>rows := filter (\<lambda>r. get_cell r ''Month'' = Str k) (rows df)\<rparr>)
       \<and> ((\<forall>r\<in>set (rows df). get_cell r ''Month'' \<noteq> Str k0) \<longrightarrow>
            month_filter df (Some (Str k0)) = Inr (df\<lparr>rows := []\<rparr>))
       \<and> (k1 \<noteq> k2 \<longrightarrow>
            set (filter (\<lambda>r. get_cell r ''Month'' = Str k1) (rows df))
              \<inter> set (filter (\<lambda>r. get_cell r ''Month'' = Str k2) (rows df)) = {})
       \<and> (\<exists>ks. month_options df = Inr (map Str ks) \<and> distinct ks
              \<and> set ks = {k. \<exists>r\<in>set (rows df). get_cell r ''Month'' = Str k}
              \<and> mset (concat (map (\<lambda>k. filter (\<lambda>r. get_cell r ''Month'' = Str k) (rows df)) ks))
                  = mset (rows df))"
proof -
  have c: "''Month'' \<in> set (columns df)"
    using assms by (rule loaded_month(2))
  have key: "month_filter df (Some (Str k))
           = Inr (df\<lparr>rows := filter (\<lambda>r. get_cell r ''Month'' = Str k) (rows df)\<rparr>)" for k
    using c by (rule month_filter_key)
  have none: "month_filter df (Some (Str k0)) = Inr (df\<lparr>rows := []\<rparr>)"
    if "\<forall>r\<in>set (rows df). get_cell r ''Month'' \<noteq> Str k0"
  proof -
    have "filter (\<lambda>r. get_cell r ''Month'' = Str k0) (rows df) = []"
      using that by (simp add: filter_empty_conv)
    then show ?thesis
      by (simp add: key)
  qed
  have disj: "set (filter (\<lambda>r. get_cell r ''Month'' = Str k1) (rows df))
              \<inter> set (filter (\<lambda>r. get_cell r ''Month'' = Str k2) (rows df)) = {}"
    if "k1 \<noteq> k2"
    using that by auto
  define month_of where "month_of = (\<lambda>r. case get_cell r ''Month'' of Str s \<Rightarrow> s | _ \<Rightarrow> [])"
  define ks where "ks = unique (map month_of (rows df))"
  have str: "get_cell r ''Month'' = Str (month_of r)" if "r \<in> set (rows df)" for r
    using loaded_month_str [OF assms that] by (auto simp: month_of_def)
  have m: "map (\<lambda>r. get_cell r ''Month'') (rows df) = map Str (map month_of (rows df))"
    using str by simp
  have ra: "removeAll (Str y) (map Str ys) = map Str (removeAll y ys)" for y ys
    by (induction ys) auto
  have u: "unique (map Str xs) = map Str (unique xs)" for xs :: "string list"
  proof (induction xs rule: unique.induct)
    case 1
    show ?case by simp
  next
    case (2 x xs)
    show ?case
      using 2 by (simp add: ra)
  qed
  have opts: "month_options df = Inr (map Str ks)"
    using c u [of "map month_of (rows df)"] by (simp add: month_options_def getitem_def m ks_def)
  have d: "distinct ks"
    by (simp add: ks_def distinct_unique)
  have s: "set ks = {k. \<exists>r\<in>set (rows df). get_cell r ''Month'' = Str k}"
    using str by (auto simp: ks_def set_unique)
  have e: "filter (\<lambda>r. get_cell r ''Month'' = Str k) (rows df) = filter (\<lambda>r. month_of r = k) (rows df)" for k
    using str by (auto intro: filter_cong)
  have "mset (concat (map (\<lambda>k. filter (\<lambda>r. month_of r = k) (rows df)) ks)) = mset (rows df)"
    using d by (rule partition_by_key) (simp add: ks_def set_unique)
  then have un: "mset (concat (map (\<lambda>k. filter (\<lambda>r. get_cell r ''Month'' = Str k) (rows df)) ks))
                  = mset (rows df)"
    by (simp add: e)
  show ?thesis
    using key none disj opts d s un by blast
qed

theorem month_filter_partition_witness:
  "load_data insertion_argsort scenario_fs ''a.csv'' = Inr scenario_frame
   \<and> month_filter scenario_frame (Some (Str ''2019-01''))
       = Inr (scenario_frame\<lparr>rows := [rows scenario_frame ! 0, rows scenario_frame ! 1]\<rparr>)
   \<and> month_filter scenario_frame (Some (Str ''2019-03'')) = Inr (scenario_frame\<lparr>rows := []\<rparr>)
   \<and> month_filter scenario_frame (Some (Str ''2019-02''))
       = Inr (scenario_frame\<lparr>rows := [rows scenario_frame ! 2]\<rparr>)
   \<and> set [rows scenario_frame ! 0, rows scenario_frame ! 1] \<inter> set [rows scenario_frame ! 2] = {}
   \<and> month_options scenario_frame = Inr [Str ''2019-01'', Str ''2019-02'']"
proof -
  have m: "map (\<lambda>r. get_cell r ''Month'') (rows scenario_frame)
      = [Str ''2019-01'', Str ''2019-01'', Str ''2019-02'']"
    by (simp add: scenario_frame_def get_cell_def)
  have f: "filter (\<lambda>r. get_cell r ''Month'' = Str ''2019-01'') (rows scenario_frame)
      = [rows scenario_frame ! 0, rows scenario_frame ! 1]"
    "filter (\<lambda>r. get_cell r ''Month'' = Str ''2019-02'') (rows scenario_frame)
      = [rows scenario_frame ! 2]"
    "filter (\<lambda>r. get_cell r ''Month'' = Str ''2019-03'') (rows scenario_frame) = []"
    by (simp_all add: scenario_frame_def get_cell_def)
  have o: "month_options scenario_frame = Inr [Str ''2019-01'', Str ''2019-02'']"
    by (simp add: month_options_def getitem_def m) (simp add: scenario_frame_def)
  have n: "\<forall>r\<in>set (rows scenario_frame). get_cell r ''Month'' \<noteq> Str ''2019-03''"
    by (simp add: scenario_frame_def get_cell_def)
  have d: "set [rows scenario_frame ! 0, rows scenario_frame ! 1] \<inter> set [rows scenario_frame ! 2] = {}"
    by (simp add: scenario_frame_def)
  show ?thesis
    using load_scenario [of "''a.csv''"] n o d
      month_filter_partition [OF load_scenario [of "''a.csv''"],
        where k = "''2019-01''" and ?k0.0 = "''2019-03''" and ?k1.0 = "''2019-01''"
          and ?k2.0 = "''2019-02''"]
      month_filter_partition [OF load_scenario [of "''a.csv''"],
        where k = "''2019-02''" and ?k0.0 = "''2019-03''" and ?k1.0 = "''2019-01''"
          and ?k2.0 = "''2019-02''"]
    by (simp add: f)
qed

lemma sidebar_filters_month_filter:
  "sidebar_filters df choice =
     (case month_options df of
        Inl e \<Rightarrow> Inl e
      | Inr options \<Rightarrow> month_filter df (selectbox options choice))"
  by (simp add: sidebar_filters_def)

lemma sorted_by_date_filter:
  assumes "sorted_by_date rs"
  shows "sorted_by_date (filter P rs)"
  using assms unfolding sorted_by_date_def by (rule sorted_filter)

text \<open>
  Claim C10. On a table returned by the loader, the month filter called with any value
  (a key, or nothing when the select box has no option) returns a table whose rows are
  rows of the loaded table in the order they have there: a subsequence of its rows. So
  does \<^verbatim>\<open>sidebar_filters\<close>, whatever the user chooses. As the loaded table is sorted by
  date, given that the sorting routine returns a sorted permutation, the table handed to
  the views is sorted by date as well.
\<close>

theorem month_filter_keeps_order:
  assumes "load_data kind fs p = Inr df" and "argsort_contract kind"
  shows "sorted_by_date (rows df)
       \<and> (\<exists>df'. month_filter df month = Inr df'
              \<and> df' = df\<lparr>rows := filter (\<lambda>r. case month of None \<Rightarrow> False
                                         | Some m \<Rightarrow> \<not> isna (get_cell r ''Month'')
                                                     \<and> get_cell r ''Month'' = m) (rows df)\<rparr>
              \<and> subseq (rows df') (rows df) \<and> sorted_by_date (rows df'))
       \<and> (\<exists>options df'. month_options df = Inr options
              \<and> sidebar_filters df choice = month_filter df (selectbox options choice)
              \<and> sidebar_filters df choice = Inr df'
              \<and> subseq (rows df') (rows df) \<and> sorted_by_date (rows df'))"
proof -
  have c: "''Month'' \<in> set (columns df)"
    using assms(1) by (rule loaded_month(2))
  have s: "sorted_by_date (rows df)"
    using assms by (rule loaded_sorted)
  have f: "\<exists>df'. month_filter df m = Inr df'
              \<and> df' = df\<lparr>rows := filter (\<lambda>r. case m of None \<Rightarrow> False
                                         | Some m \<Rightarrow> \<not> isna (get_cell r ''Month'')
                                                     \<and> get_cell r ''Month'' = m) (rows df)\<rparr>
              \<and> subseq (rows df') (rows df) \<and> sorted_by_date (rows df')" for m
    using month_filter_rows [OF c, of m] s by (simp add: sorted_by_date_filter)
  obtain options where o: "month_options df = Inr options"
    using c by (simp add: month_options_def getitem_def)
  then have sf: "sidebar_filters df choice = month_filter df (selectbox options choice)"
    by (simp add: sidebar_filters_def)
  obtain df' where "month_filter df (selectbox options choice) = Inr df'"
    and "subseq (rows df') (rows df)" and "sorted_by_date (rows df')"
    using f [of "selectbox options choice"] by blast
  then have "\<exists>options df'. month_options df = Inr options
              \<and> sidebar_filters df choice = month_filter df (selectbox options choice)
              \<and> sidebar_filters df choice = Inr df'
              \<and> subseq (rows df') (rows df) \<and> sorted_by_date (rows df')"
    using o sf by auto
  then show ?thesis
    using s f [of month] by blast
qed

theorem month_filter_keeps_order_witness:
  "load_data insertion_argsort scenario_fs ''a.csv'' = Inr scenario_frame
   \<and> argsort_contract insertion_argsort
   \<and> sorted_by_date (rows scenario_frame)
   \<and> month_filter scenario_frame (Some (Str ''2019-01''))
       = Inr (scenario_frame\<lparr>rows := [rows scenario_frame ! 0, rows scenario_frame ! 1]\<rparr>)
   \<and> subseq [rows scenario_frame ! 0, rows scenario_frame ! 1] (rows scenario_frame)
   \<and> sorted_by_date [rows scenario_frame ! 0, rows scenario_frame ! 1]
   \<and> sidebar_filters scenario_frame 1 = Inr (scenario_frame\<lparr>rows := [rows scenario_frame ! 2]\<rparr>)
   \<and> subseq [rows scenario_frame ! 2] (rows scenario_frame)"
proof -
  have m: "map (\<lambda>r. get_cell r ''Month'') (rows scenario_frame)
      = [Str ''2019-01'', Str ''2019-01'', Str ''2019-02'']"
    by (simp add: scenario_frame_def get_cell_def)
  have c: "''Month'' \<in> set (columns scenario_frame)"
    by (simp add: scenario_frame_def)
  have f1: "month_filter scenario_frame (Some (Str ''2019-01''))
       = Inr (scenario_frame\<lparr>rows := [rows scenario_frame ! 0, rows scenario_frame ! 1]\<rparr>)"
    by (simp add: month_filter_key [OF c]) (simp add: scenario_frame_def get_cell_def)
  have f2: "month_filter scenario_frame (Some (Str ''2019-02''))
       = Inr (scenario_frame\<lparr>rows := [rows scenario_frame ! 2]\<rparr>)"
    by (simp add: month_filter_key [OF c]) (simp add: scenario_frame_def get_cell_def)
  have o: "month_options scenario_frame = Inr [Str ''2019-01'', Str ''2019-02'']"
    using c by (simp add: month_options_def getitem_def m)
  have sf: "sidebar_filters scenario_frame 1 = Inr (scenario_frame\<lparr>rows := [rows scenario_frame ! 2]\<rparr>)"
    by (simp add: sidebar_filters_def o selectbox_def f2)
  from month_filter_keeps_order [OF load_scenario [of "''a.csv''"] insertion_argsort_contract,
      of "Some (Str ''2019-01'')" 1] sf
  show ?thesis
    by (auto simp: load_scenario insertion_argsort_contract f1)
qed

section \<open>The views\<close>










lemma groupby_Inr:
  assumes "set by \<subseteq> set (columns df)"
  shows "groupby df by =
           Inr (map (\<lambda>k. (k, filter (\<lambda>r. map (get_cell r) by = k)
                                 (filter (\<lambda>r. \<not> list_ex isna (map (get_cell r) by)) (rows df))))
                    (sort_key (map cell_key)
                       (remdups (map (\<lambda>r. map (get_cell r) by)
                                  (filter (\<lambda>r. \<not> list_ex isna (map (get_cell r) by)) (rows df))))))"
proof -
  have "filter (\<lambda>name. name \<notin> set (columns df)) by = []"
    using assms by (auto simp: filter_empty_conv)
  then show ?thesis
    by (simp add: groupby_def Let_def)
qed

lemma tokenize_sales: "tokenize_all (to_csv sales_table) = Inr sales_table"
  by (rule tokenize_all_to_csv [where n = 6])
     (simp add: sales_table_def plain_row_def plain_char_def delimiter_def quotechar_def
       IS_TERMINATOR_def IS_CARRIAGE_def IS_WHITESPACE_def)

lemma sales_columns:
  "convert_tokens [''01/05/2019'', ''02/01/2019'', ''01/12/2019'']
     = [Str ''01/05/2019'', Str ''02/01/2019'', Str ''01/12/2019'']"
  "convert_tokens [''CityA'', ''CityB'', ''CityA''] = [Str ''CityA'', Str ''CityB'', Str ''CityA'']"
  "convert_tokens [''Food'', ''Sports'', ''Food''] = [Str ''Food'', Str ''Sports'', Str ''Food'']"
  "convert_tokens [''Cash'', ''Ewallet'', ''Cash''] = [Str ''Cash'', Str ''Ewallet'', Str ''Cash'']"
  "convert_tokens [''100,50'', ''75,00'', ''50,25''] = [Num (201 / 2), Num 75, Num (201 / 4)]"
  "convert_tokens [''7'', ''9'', ''8''] = [Num 7, Num 9, Num 8]"
  by (simp_all add: column_defs number_defs)

lemma read_sales:
  "read_csv sales_fs p =
     Inr \<lparr>columns = [''Date'', ''City'', ''Product line'', ''Payment'', ''Total'', ''Rating''],
          rows =
            [\<lparr>pos = 0, cells = [(''Date'', Str ''01/05/2019''), (''City'', Str ''CityA''),
                                  (''Product line'', Str ''Food''), (''Payment'', Str ''Cash''),
                                  (''Total'', Num (201 / 2)), (''Rating'', Num 7)]\<rparr>,
             \<lparr>pos = 1, cells = [(''Date'', Str ''02/01/2019''), (''City'', Str ''CityB''),
                                  (''Product line'', Str ''Sports''), (''Payment'', Str ''Ewallet''),
                                  (''Total'', Num 75), (''Rating'', Num 9)]\<rparr>,
             \<lparr>pos = 2, cells = [(''Date'', Str ''01/12/2019''), (''City'', Str ''CityA''),
                                  (''Product line'', Str ''Food''), (''Payment'', Str ''Cash''),
                                  (''Total'', Num (201 / 4)), (''Rating'', Num 8)]\<rparr>]\<rparr>"
  by (simp add: read_csv_def sales_fs_def tokenize_sales)
     (simp add: sales_table_def data_frame_def sales_columns)

lemma load_sales: "load_data insertion_argsort sales_fs p = Inr sales_frame"
  by (simp add: load_data_def read_sales frame_defs scenario_dates
      sort_defs month_defs sales_frame_def digit_chars)

lemma rating_by_city_sales:
  "plot_rating_by_city sales_frame = Inr [[Str ''CityA'', Num (15 / 2)], [Str ''CityB'', Num 9]]"
  by (simp add: plot_rating_by_city_def groupby_agg_def groupby_def sales_frame_def get_cell_def
      isna_def cell_key_def agg_mean_def num_val_def less_eq_prod_def less_prod_def
      less_eq_char_def less_char_def)










lemma px_data_empty:
  assumes "rows df = []" and "set names \<subseteq> set (columns df)"
  shows "px_data df names = Inr []"
proof -
  have "filter (\<lambda>name. name \<notin> set (columns df)) names = []"
    using assms(2) by (auto simp: filter_empty_conv)
  then show ?thesis
    by (simp add: px_data_def assms(1))
qed

lemma groupby_agg_empty:
  assumes "rows df = []" and "set by \<subseteq> set (columns df)" and "col \<in> set (columns df)"
  shows "groupby_agg df by col agg = Inr []"
  using assms(3) by (simp add: groupby_agg_def groupby_Inr [OF assms(2)] assms(1))

lemma groupby_groups:
  assumes "groupby df by = Inr gs" and "g \<in> set gs"
  shows "snd g \<noteq> []" and "set (snd g) \<subseteq> set (rows df)"
    and "\<forall>r\<in>set (snd g). map (get_cell r) by = fst g \<and> \<not> list_ex isna (fst g)"
proof -
  define rs where "rs = filter (\<lambda>r. \<not> list_ex isna (map (get_cell r) by)) (rows df)"
  have gs: "gs = map (\<lambda>k. (k, filter (\<lambda>r. map (get_cell r) by = k) rs))
                  (sort_key (map cell_key) (remdups (map (\<lambda>r. map (get_cell r) by) rs)))"
    using assms(1) by (auto simp: groupby_def Let_def rs_def split: list.splits)
  from assms(2) obtain k where k: "k \<in> set (map (\<lambda>r. map (get_cell r) by) rs)"
    and g: "g = (k, filter (\<lambda>r. map (get_cell r) by = k) rs)"
    unfolding gs by auto
  from k obtain r where "r \<in> set rs" and "map (get_cell r) by = k"
    by auto
  then have "r \<in> set (snd g)"
    by (simp add: g)
  then show "snd g \<noteq> []"
    by auto
  show "set (snd g) \<subseteq> set (rows df)"
    by (auto simp: g rs_def)
  show "\<forall>r\<in>set (snd g). map (get_cell r) by = fst g \<and> \<not> list_ex isna (fst g)"
    by (auto simp: g rs_def)
qed

lemma groupby_agg_Inr:
  assumes "groupby_agg df by col agg = Inr t"
  obtains gs where "groupby df by = Inr gs" and "length t = length gs"
    and "\<forall>i<length gs. \<exists>v. agg (map (\<lambda>r. get_cell r col) (snd (gs ! i))) = Inr v
                          \<and> t ! i = fst (gs ! i) @ [v]"
proof -
  from assms obtain gs where g: "groupby df by = Inr gs"
    by (auto simp: groupby_agg_def split: sum.splits)
  from assms g have "map_err (\<lambda>(k, rs). case agg (map (\<lambda>r. get_cell r col) rs) of
                                    Inl e \<Rightarrow> Inl e
                                  | Inr v \<Rightarrow> Inr (k @ [v])) gs = Inr t"
    by (auto simp: groupby_agg_def split: if_splits)
  then have l: "list_all2 (\<lambda>x row. (case x of (k, rs) \<Rightarrow>
                    case agg (map (\<lambda>r. get_cell r col) rs) of
                      Inl e \<Rightarrow> Inl e
                    | Inr v \<Rightarrow> Inr (k @ [v])) = Inr row) gs t"
    by (simp add: map_err_Inr)
  have "\<exists>v. agg (map (\<lambda>r. get_cell r col) (snd (gs ! i))) = Inr v \<and> t ! i = fst (gs ! i) @ [v]"
    if "i < length gs" for i
    using list_all2_nthD [OF l that] by (auto simp: case_prod_beta split: sum.splits)
  then show ?thesis
    using that [OF g] list_all2_lengthD [OF l] by simp
qed

text \<open>
  Claim C7. On a table without rows that has the columns of a sales table, each of the
  five views returns the empty result and raises nothing. Whatever table the view of the
  mean rating is applied to, each line of its result belongs to a group of \<^verbatim>\<open>groupby\<close>,
  and a group is never empty: its rows are rows of the table, and the value of the line
  is the mean over their ratings. A city without rows has no line.
\<close>

theorem views_of_empty_table:
  assumes "rows df = []"
    and "set [''Date'', ''City'', ''Product line'', ''Payment'', ''Total'', ''Rating'']
           \<subseteq> set (columns df)"
  shows "plot_revenue_by_day df = Inr []
       \<and> plot_revenue_by_product df = Inr []
       \<and> plot_revenue_by_city df = Inr []
       \<and> plot_revenue_by_payment df = Inr []
       \<and> plot_rating_by_city df = Inr []
       \<and> (plot_rating_by_city df' = Inr t \<longrightarrow>
            (\<exists>gs. groupby df' [''City''] = Inr gs \<and> length t = length gs
               \<and> (\<forall>i<length gs.
                     snd (gs ! i) \<noteq> [] \<and> set (snd (gs ! i)) \<subseteq> set (rows df')
                   \<and> (\<exists>v. agg_mean (map (\<lambda>r. get_cell r ''Rating'') (snd (gs ! i))) = Inr v
                          \<and> t ! i = fst (gs ! i) @ [v]))))"
proof -
  have day: "plot_revenue_by_day df = Inr []"
    unfolding plot_revenue_by_day_def using assms by (intro px_data_empty) simp_all
  have payment: "plot_revenue_by_payment df = Inr []"
    unfolding plot_revenue_by_payment_def using assms by (intro px_data_empty) simp_all
  have product: "plot_revenue_by_product df = Inr []"
    unfolding plot_revenue_by_product_def using assms by (intro groupby_agg_empty) simp_all
  have city: "plot_revenue_by_city df = Inr []"
    unfolding plot_revenue_by_city_def using assms by (intro groupby_agg_empty) simp_all
  have rating: "plot_rating_by_city df = Inr []"
    unfolding plot_rating_by_city_def using assms by (intro groupby_agg_empty) simp_all
  have groups: "\<exists>gs. groupby df' [''City''] = Inr gs \<and> length t = length gs
               \<and> (\<forall>i<length gs.
                     snd (gs ! i) \<noteq> [] \<and> set (snd (gs ! i)) \<subseteq> set (rows df')
                   \<and> (\<exists>v. agg_mean (map (\<lambda>r. get_cell r ''Rating'') (snd (gs ! i))) = Inr v
                          \<and> t ! i = fst (gs ! i) @ [v]))"
    if "plot_rating_by_city df' = Inr t"
  proof -
    from that obtain gs where g: "groupby df' [''City''] = Inr gs" and l: "length t = length gs"
      and v: "\<forall>i<length gs. \<exists>v. agg_mean (map (\<lambda>r. get_cell r ''Rating'') (snd (gs ! i))) = Inr v
                          \<and> t ! i = fst (gs ! i) @ [v]"
      unfolding plot_rating_by_city_def by (rule groupby_agg_Inr)
    have "snd (gs ! i) \<noteq> [] \<and> set (snd (gs ! i)) \<subseteq> set (rows df')" if "i < length gs" for i
      using groupby_groups(1,2) [OF g, of "gs ! i"] that by simp
    then show ?thesis
      using g l v by blast
  qed
  show ?thesis
    using day product city payment rating groups by blast
qed

theorem views_of_empty_table_witness:
  "month_filter sales_frame (Some (Str ''2019-03'')) = Inr empty_sales
   \<and> rows empty_sales = []
   \<and> plot_revenue_by_day empty_sales = Inr []
   \<and> plot_revenue_by_product empty_sales = Inr []
   \<and> plot_revenue_by_city empty_sales = Inr []
   \<and> plot_revenue_by_payment empty_sales = Inr []
   \<and> plot_rating_by_city empty_sales = Inr []
   \<and> plot_rating_by_city sales_frame = Inr [[Str ''CityA'', Num (15 / 2)], [Str ''CityB'', Num 9]]
   \<and> groupby sales_frame [''City'']
       = Inr [([Str ''CityA''], [rows sales_frame ! 0, rows sales_frame ! 1]),
              ([Str ''CityB''], [rows sales_frame ! 2])]"
proof -
  have c: "''Month'' \<in> set (columns sales_frame)"
    by (simp add: sales_frame_def)
  have f: "month_filter sales_frame (Some (Str ''2019-03'')) = Inr empty_sales"
    by (simp add: month_filter_key [OF c]) (simp add: sales_frame_def get_cell_def empty_sales_def)
  have e: "rows empty_sales = []"
    "set [''Date'', ''City'', ''Product line'', ''Payment'', ''Total'', ''Rating'']
           \<subseteq> set (columns empty_sales)"
    by (simp_all add: empty_sales_def)
  have g: "groupby sales_frame [''City'']
       = Inr [([Str ''CityA''], [rows sales_frame ! 0, rows sales_frame ! 1]),
              ([Str ''CityB''], [rows sales_frame ! 2])]"
    by (simp add: groupby_def sales_frame_def get_cell_def isna_def cell_key_def
        less_eq_prod_def less_prod_def less_eq_char_def less_char_def)
  from views_of_empty_table [OF e, where df' = sales_frame
      and t = "[[Str ''CityA'', Num (15 / 2)], [Str ''CityB'', Num 9]]"]
    f e(1) g rating_by_city_sales
  show ?thesis
    by simp
qed

end
